theory Spec2Isabelle
  imports Main "HOL-Library.Word"
begin

unbundle bit_operations_syntax

section \<open>JavaScript values\<close>

text \<open>
  Values that come out of \<^verbatim>\<open>response.json()\<close> and \<^verbatim>\<open>JSON.parse\<close>, plus
  \<^verbatim>\<open>undefined\<close>, which property reads produce. Text is a list of 8-bit characters, read
  as the code points U+0000 to U+00FF. Numbers are carried as integers: the code only
  tests them for truthiness. An object is the list of its own properties.
\<close>

datatype jsval =
    JUndefined
  | JNull
  | JBool bool
  | JNum int
  | JStr string
  | JArr "jsval list"
  | JObj "(string \<times> jsval) list"

fun typeof :: "jsval \<Rightarrow> string" where
  "typeof JUndefined = ''undefined''"
| "typeof JNull = ''object''"
| "typeof (JBool b) = ''boolean''"
| "typeof (JNum n) = ''number''"
| "typeof (JStr s) = ''string''"
| "typeof (JArr xs) = ''object''"
| "typeof (JObj kvs) = ''object''"

text \<open>
  \<^verbatim>\<open>key in value\<close> for a value that is an object. The keys the code probes
  (\<^verbatim>\<open>error\<close>, \<^verbatim>\<open>browser_actions\<close>) are neither array indices nor inherited
  from a prototype.
\<close>

fun hasProperty :: "string \<Rightarrow> jsval \<Rightarrow> bool" where
  "hasProperty k (JObj kvs) = (k \<in> set (map fst kvs))"
| "hasProperty k v = False"

text \<open>
  \<^verbatim>\<open>value.key\<close> for a value other than \<^verbatim>\<open>null\<close> and \<^verbatim>\<open>undefined\<close>: the keys
  the code reads (\<^verbatim>\<open>error\<close>, \<^verbatim>\<open>message\<close>, \<^verbatim>\<open>content\<close>,
  \<^verbatim>\<open>browser_actions\<close>, \<^verbatim>\<open>action\<close>, \<^verbatim>\<open>parameters\<close>) exist on objects only.
\<close>

fun member_of :: "jsval \<Rightarrow> string \<Rightarrow> jsval" where
  "member_of (JObj kvs) k = (case map_of kvs k of Some v \<Rightarrow> v | None \<Rightarrow> JUndefined)"
| "member_of v k = JUndefined"

fun truthy :: "jsval \<Rightarrow> bool" where
  "truthy JUndefined = False"
| "truthy JNull = False"
| "truthy (JBool b) = b"
| "truthy (JNum n) = (n \<noteq> 0)"
| "truthy (JStr s) = (s \<noteq> [])"
| "truthy (JArr xs) = True"
| "truthy (JObj kvs) = True"

text \<open>The type guard \<^verbatim>\<open>isErrorResponse\<close>, and the text of a value it has found a string.\<close>

definition isErrorResponse :: "jsval \<Rightarrow> bool" where
  "isErrorResponse response =
     (typeof response = ''object'' \<and>
      response \<noteq> JNull \<and>
      hasProperty ''error'' response \<and>
      typeof (member_of response ''error'') = ''string'')"

fun stringOf :: "jsval \<Rightarrow> string" where
  "stringOf (JStr s) = s"
| "stringOf v = []"

section \<open>Errors\<close>

text \<open>
  What a \<^verbatim>\<open>throw\<close> or a rejected promise carries. \<^verbatim>\<open>OllamaAPIError\<close> has a message
  and an optional status code; \<^verbatim>\<open>OllamaNetworkError\<close> extends it and is built from the
  message alone; every other error (the platform's \<^verbatim>\<open>TypeError\<close>, \<^verbatim>\<open>SyntaxError\<close>,
  \<^verbatim>\<open>AbortError\<close>) is \<open>OtherError\<close> with its message.
\<close>

datatype thrown =
    OllamaAPIError string "nat option"
  | OllamaNetworkError string
  | OtherError string

fun message :: "thrown \<Rightarrow> string" where
  "message (OllamaAPIError m sc) = m"
| "message (OllamaNetworkError m) = m"
| "message (OtherError m) = m"

fun instanceofOllamaAPIError :: "thrown \<Rightarrow> bool" where
  "instanceofOllamaAPIError (OllamaAPIError m sc) = True"
| "instanceofOllamaAPIError (OllamaNetworkError m) = True"
| "instanceofOllamaAPIError (OtherError m) = False"

fun instanceofOllamaNetworkError :: "thrown \<Rightarrow> bool" where
  "instanceofOllamaNetworkError (OllamaNetworkError m) = True"
| "instanceofOllamaNetworkError e = False"

section \<open>The client and what it does to the outside\<close>

text \<open>
  The fields the constructor copies from the configuration. The attempt count is the
  result of \<^verbatim>\<open>parseInt\<close>: any integer, negative ones included. (\<^verbatim>\<open>parseInt\<close> can
  also give \<^verbatim>\<open>NaN\<close>, for which the loop guard of \<^verbatim>\<open>post\<close> is false as it is for 0.)
\<close>

record config =
  baseUrl :: string
  defaultModel :: string
  timeoutMs :: int
  retryAttempts :: int
  retryDelayMs :: int

text \<open>
  The effects of a call, in the order they happen: arming and clearing the timer that
  aborts the request, the outbound HTTP call, the pause before a retry, and the logger's
  error and warning lines (debug lines are not recorded).
\<close>

datatype net_event =
    SetAbortTimer int
  | ClearAbortTimer
  | Fetch string
  | Sleep int
  | LogError string
  | LogWarn string

text \<open>
  What the platform answers. A promise of the platform resolves with a value, rejects
  with an error message, or stays pending for as long as nothing aborts it (\<open>Hangs\<close>).
  \<^verbatim>\<open>fetch\<close> is a promise of a response; the body readers \<^verbatim>\<open>text()\<close> (\<open>bodyText\<close>)
  and \<^verbatim>\<open>json()\<close> (\<open>bodyJson\<close>) of a response are promises of a text and of a JSON
  value. The platform never throws the client's own \<^verbatim>\<open>OllamaAPIError\<close>.

  \<^verbatim>\<open>response.body.getReader()\<close> gives a reader. Its successive \<^verbatim>\<open>read()\<close> calls
  resolve with a chunk of bytes, resolve with \<^verbatim>\<open>done\<close>, or reject; after the last
  listed result a \<^verbatim>\<open>read()\<close> stays pending. \<open>closed\<close> is the truthiness of the
  reader's \<^verbatim>\<open>closed\<close> property, which the loop of \<^verbatim>\<open>stream\<close> tests: a reader of
  the Streams API has a promise there, which is truthy; the reader of the repository's
  test has \<^verbatim>\<open>closed: false\<close>.
\<close>

type_synonym byte = "8 word"

datatype read_result =
    Chunk "byte list"
  | Done
  | ReadRejects string

record reader =
  closed :: bool
  reads :: "read_result list"

datatype 'a promise =
    Rejects string
  | Resolves 'a
  | Hangs

record response =
  ok :: bool
  status :: nat
  bodyText :: "string promise"
  bodyJson :: "jsval promise"
  body :: "reader option"

type_synonym fetch_outcome = "response promise"

text \<open>
  How an asynchronous call of the client ends: it throws (\<open>Some (Inl error)\<close>), it
  returns (\<open>Some (Inr result)\<close>), or its promise never settles (\<open>None\<close>).
\<close>

type_synonym 'a settlement = "(thrown + 'a) option"

fun threw :: "'a settlement \<Rightarrow> bool" where
  "threw (Some (Inl error)) = True"
| "threw r = False"

text \<open>
  The body of the \<^verbatim>\<open>try\<close> block of \<^verbatim>\<open>post\<close>: one attempt. The timer armed
  before \<^verbatim>\<open>fetch\<close> aborts a call that is still pending after \<open>timeoutMs\<close>, which then
  rejects; the timer is cleared once \<^verbatim>\<open>fetch\<close> has resolved, before the body is read,
  so that nothing ends an attempt whose \<^verbatim>\<open>response.text()\<close> or \<^verbatim>\<open>response.json()\<close>
  stays pending.
\<close>

definition attemptOnce :: "config \<Rightarrow> string \<Rightarrow> fetch_outcome \<Rightarrow> jsval settlement \<times> net_event list" where
  "attemptOnce cfg url outcome =
     (case outcome of
        Rejects m \<Rightarrow> (Some (Inl (OtherError m)), [SetAbortTimer (timeoutMs cfg), Fetch url])
      | Hangs \<Rightarrow>
          (Some (Inl (OtherError ''This operation was aborted'')),
           [SetAbortTimer (timeoutMs cfg), Fetch url])
      | Resolves resp \<Rightarrow>
          (if \<not> ok resp then
             (case bodyText resp of
                Rejects m \<Rightarrow>
                  (Some (Inl (OtherError m)), [SetAbortTimer (timeoutMs cfg), Fetch url, ClearAbortTimer])
              | Hangs \<Rightarrow>
                  (None, [SetAbortTimer (timeoutMs cfg), Fetch url, ClearAbortTimer])
              | Resolves t \<Rightarrow>
                  (Some (Inl (OllamaAPIError (''API error: '' @ t) (Some (status resp)))),
                   [SetAbortTimer (timeoutMs cfg), Fetch url, ClearAbortTimer, LogError ''API error''])
             )
           else
             (case bodyJson resp of
                Rejects m \<Rightarrow>
                  (Some (Inl (OtherError m)), [SetAbortTimer (timeoutMs cfg), Fetch url, ClearAbortTimer])
              | Hangs \<Rightarrow>
                  (None, [SetAbortTimer (timeoutMs cfg), Fetch url, ClearAbortTimer])
              | Resolves result \<Rightarrow>
                  (if isErrorResponse result then
                     (Some (Inl (OllamaAPIError
                             (''API returned error: '' @ stringOf (member_of result ''error'')) None)),
                      [SetAbortTimer (timeoutMs cfg), Fetch url, ClearAbortTimer,
                       LogError ''API returned error''])
                   else
                     (Some (Inr result), [SetAbortTimer (timeoutMs cfg), Fetch url, ClearAbortTimer])))))"

text \<open>
  The \<^verbatim>\<open>while (attempt < this.retryAttempts)\<close> loop of \<^verbatim>\<open>post\<close>, entered with the
  attempts made so far. The environment \<open>env\<close> gives the outcome of the k-th outbound
  call, counted from 1. An attempt that never settles is the last thing the call does.
\<close>

function postLoop :: "config \<Rightarrow> (nat \<Rightarrow> fetch_outcome) \<Rightarrow> string \<Rightarrow> int \<Rightarrow> jsval settlement \<times> net_event list" where
  "postLoop cfg env url attempt =
     (if attempt < retryAttempts cfg then
        (case attemptOnce cfg url (env (nat (attempt + 1))) of
           (None, evs) \<Rightarrow> (None, evs)
         | (Some (Inr result), evs) \<Rightarrow> (Some (Inr result), evs)
         | (Some (Inl error), evs) \<Rightarrow>
             (if attempt + 1 \<ge> retryAttempts cfg then
                (if instanceofOllamaAPIError error then (Some (Inl error), evs)
                 else (Some (Inl (OllamaNetworkError (''Network error: '' @ message error))),
                       evs @ [LogError ''Network error:'']))
              else
                (case postLoop cfg env url (attempt + 1) of
                   (r, evs') \<Rightarrow>
                     (r, evs @ [LogWarn ''Request failed, retrying'', Sleep (retryDelayMs cfg)] @ evs'))))
      else (Some (Inl (OllamaAPIError ''Maximum retry attempts reached'' None)), []))"
  by pat_completeness auto
termination
  by (relation "measure (\<lambda>(cfg, env, url, attempt). nat (retryAttempts cfg - attempt))") auto

declare postLoop.simps [simp del]

text \<open>
  \<^verbatim>\<open>post\<close>: how the call ends and its effects. The environment gives, for a URL and
  a request payload, the outcome of each outbound call.
\<close>

definition post :: "config \<Rightarrow> (string \<Rightarrow> 'req \<Rightarrow> nat \<Rightarrow> fetch_outcome) \<Rightarrow> string \<Rightarrow> 'req \<Rightarrow> jsval settlement \<times> net_event list" where
  "post cfg env endpoint data =
     postLoop cfg (env (baseUrl cfg @ ''/'' @ endpoint) data) (baseUrl cfg @ ''/'' @ endpoint) 0"

text \<open>
  The \<^verbatim>\<open>catch\<close> block of the last attempt: an \<^verbatim>\<open>OllamaAPIError\<close> is rethrown as it
  is, anything else is wrapped in an \<^verbatim>\<open>OllamaNetworkError\<close>.
\<close>

definition surfaced :: "thrown \<Rightarrow> thrown" where
  "surfaced error =
     (if instanceofOllamaAPIError error then error
      else OllamaNetworkError (''Network error: '' @ message error))"

text \<open>Which effects are outbound calls, pauses and abort timers.\<close>

fun isFetch :: "net_event \<Rightarrow> bool" where
  "isFetch (Fetch u) = True"
| "isFetch e = False"

fun isSleep :: "net_event \<Rightarrow> bool" where
  "isSleep (Sleep d) = True"
| "isSleep e = False"

fun isTimer :: "net_event \<Rightarrow> bool" where
  "isTimer (SetAbortTimer ms) = True"
| "isTimer e = False"

subsection \<open>Concrete configurations and environments\<close>

text \<open>The defaults of the configuration module.\<close>

definition cfg3 :: config where
  "cfg3 = \<lparr>baseUrl = ''http://localhost:11434/api'', defaultModel = ''granite3.2-vision'',
           timeoutMs = 30000, retryAttempts = 3, retryDelayMs = 1000\<rparr>"

definition cfg0 :: config where
  "cfg0 = cfg3\<lparr>retryAttempts := 0\<rparr>"

definition resp500 :: response where
  "resp500 = \<lparr>ok = False, status = 500, bodyText = Resolves ''Internal server error'',
               bodyJson = Rejects ''Unexpected token'', body = None\<rparr>"

definition respErrorPayload :: response where
  "respErrorPayload = \<lparr>ok = True, status = 200, bodyText = Resolves ''{error}'',
               bodyJson = Resolves (JObj [(''error'', JStr ''Something went wrong'')]), body = None\<rparr>"

text \<open>A service that answers every call with status 500.\<close>

definition env500 :: "string \<Rightarrow> unit \<Rightarrow> nat \<Rightarrow> fetch_outcome" where
  "env500 url data k = Resolves resp500"

text \<open>A service that answers every call with status 200 and an error payload.\<close>

definition envErrorPayload :: "string \<Rightarrow> unit \<Rightarrow> nat \<Rightarrow> fetch_outcome" where
  "envErrorPayload url data k = Resolves respErrorPayload"

text \<open>
  A service that sends the status line and headers of a successful response and then
  nothing more: the body read never settles.
\<close>

definition respStalled :: response where
  "respStalled = \<lparr>ok = True, status = 200, bodyText = Hangs, bodyJson = Hangs, body = None\<rparr>"

definition envStalled :: "string \<Rightarrow> 'req \<Rightarrow> nat \<Rightarrow> fetch_outcome" where
  "envStalled url data k = Resolves respStalled"

section \<open>The streaming ingester\<close>

subsection \<open>Text\<close>

text \<open>
  The text \<^verbatim>\<open>TextDecoder\<close> produces is a JavaScript string: a list of UTF-16 code units.
  \<open>isWhiteSpace16\<close> holds of the code units \<^verbatim>\<open>String.prototype.trim\<close> removes (white
  space and line terminators); \<open>indexOf\<close> is \<^verbatim>\<open>indexOf\<close> with \<open>None\<close> for -1.
\<close>

type_synonym utf16 = "16 word list"

definition isWhiteSpace16 :: "16 word \<Rightarrow> bool" where
  "isWhiteSpace16 c =
     (c = 0x09 \<or> c = 0x0A \<or> c = 0x0B \<or> c = 0x0C \<or> c = 0x0D \<or> c = 0x20 \<or> c = 0xA0 \<or>
      c = 0x1680 \<or> (0x2000 \<le> c \<and> c \<le> 0x200A) \<or> c = 0x2028 \<or> c = 0x2029 \<or>
      c = 0x202F \<or> c = 0x205F \<or> c = 0x3000 \<or> c = 0xFEFF)"

definition trimBy :: "('a \<Rightarrow> bool) \<Rightarrow> 'a list \<Rightarrow> 'a list" where
  "trimBy ws s = rev (dropWhile ws (rev (dropWhile ws s)))"

definition trim16 :: "utf16 \<Rightarrow> utf16" where
  "trim16 = trimBy isWhiteSpace16"

fun indexOf :: "'a \<Rightarrow> 'a list \<Rightarrow> nat option" where
  "indexOf c [] = None"
| "indexOf c (x # xs) = (if x = c then Some 0 else map_option Suc (indexOf c xs))"

subsection \<open>The UTF-8 decoder\<close>

text \<open>
  \<^verbatim>\<open>new TextDecoder()\<close> and \<^verbatim>\<open>decoder.decode(value, { stream: true })\<close>, after the
  Encoding Standard: the UTF-8 decoder's state (the code point under construction, the
  continuation bytes seen and needed, the bounds of the next continuation byte) and the
  flag that the byte order mark has been dealt with are kept from one call to the next. A
  malformed sequence gives U+FFFD, and the byte that broke it is decoded again as the
  start of a sequence. Nothing flushes the decoder: \<^verbatim>\<open>stream\<close> never calls
  \<^verbatim>\<open>decode\<close> without the \<^verbatim>\<open>stream\<close> option.
\<close>

record utf8_decoder =
  codePoint :: nat
  bytesSeen :: nat
  bytesNeeded :: nat
  lowerBoundary :: nat
  upperBoundary :: nat
  bomSeen :: bool

definition newTextDecoder :: utf8_decoder where
  "newTextDecoder = \<lparr>codePoint = 0, bytesSeen = 0, bytesNeeded = 0,
                      lowerBoundary = 0x80, upperBoundary = 0xBF, bomSeen = False\<rparr>"

definition resetSequence :: "utf8_decoder \<Rightarrow> utf8_decoder" where
  "resetSequence d = d\<lparr>codePoint := 0, bytesSeen := 0, bytesNeeded := 0,
                        lowerBoundary := 0x80, upperBoundary := 0xBF\<rparr>"

definition leadByte :: "utf8_decoder \<Rightarrow> byte \<Rightarrow> utf8_decoder \<times> nat list" where
  "leadByte d b =
     (if b \<le> 0x7F then (d, [unat b])
      else if 0xC2 \<le> b \<and> b \<le> 0xDF then
        (d\<lparr>bytesNeeded := 1, codePoint := unat (b AND 0x1F)\<rparr>, [])
      else if 0xE0 \<le> b \<and> b \<le> 0xEF then
        (d\<lparr>lowerBoundary := (if b = 0xE0 then 0xA0 else lowerBoundary d),
           upperBoundary := (if b = 0xED then 0x9F else upperBoundary d),
           bytesNeeded := 2, codePoint := unat (b AND 0xF)\<rparr>, [])
      else if 0xF0 \<le> b \<and> b \<le> 0xF4 then
        (d\<lparr>lowerBoundary := (if b = 0xF0 then 0x90 else lowerBoundary d),
           upperBoundary := (if b = 0xF4 then 0x8F else upperBoundary d),
           bytesNeeded := 3, codePoint := unat (b AND 0x7)\<rparr>, [])
      else (d, [0xFFFD]))"

definition decodeByte :: "utf8_decoder \<Rightarrow> byte \<Rightarrow> utf8_decoder \<times> nat list" where
  "decodeByte d b =
     (if bytesNeeded d = 0 then leadByte d b
      else if unat b < lowerBoundary d \<or> upperBoundary d < unat b then
        (case leadByte (resetSequence d) b of (d', out) \<Rightarrow> (d', 0xFFFD # out))
      else
        (let d' = d\<lparr>lowerBoundary := 0x80, upperBoundary := 0xBF,
                     codePoint := codePoint d * 64 + unat (b AND 0x3F),
                     bytesSeen := bytesSeen d + 1\<rparr>
         in if bytesSeen d' \<noteq> bytesNeeded d' then (d', [])
            else (resetSequence d', [codePoint d'])))"

text \<open>A code point as UTF-16 code units; a leading U+FEFF is dropped once.\<close>

definition codeUnits :: "nat \<Rightarrow> utf16" where
  "codeUnits cp =
     (if cp < 0x10000 then [of_nat cp]
      else [of_nat (0xD800 + (cp - 0x10000) div 0x400), of_nat (0xDC00 + (cp - 0x10000) mod 0x400)])"

fun serialize :: "utf8_decoder \<Rightarrow> nat list \<Rightarrow> utf8_decoder \<times> utf16" where
  "serialize d [] = (d, [])"
| "serialize d (cp # cps) =
     (if \<not> bomSeen d \<and> cp = 0xFEFF then serialize (d\<lparr>bomSeen := True\<rparr>) cps
      else (case serialize (d\<lparr>bomSeen := True\<rparr>) cps of (d', s) \<Rightarrow> (d', codeUnits cp @ s)))"

fun decode :: "utf8_decoder \<Rightarrow> byte list \<Rightarrow> utf8_decoder \<times> utf16" where
  "decode d [] = (d, [])"
| "decode d (b # bs) =
     (case decodeByte d b of (d1, cps) \<Rightarrow>
        (case serialize d1 cps of (d2, s) \<Rightarrow>
           (case decode d2 bs of (d3, s') \<Rightarrow> (d3, s @ s'))))"

subsection \<open>The session\<close>

text \<open>
  What a session does, in order: its network effects, the records it passes to
  \<^verbatim>\<open>onChunk\<close> and its calls of \<^verbatim>\<open>onDone\<close>. The callbacks are the caller's:
  \<open>onChunkThrows\<close> says on which records \<^verbatim>\<open>onChunk\<close> throws, \<open>onDone\<close> is absent, returns
  or throws. \<^verbatim>\<open>JSON.parse\<close> is the parameter \<open>parse\<close>, \<open>None\<close> where it throws.

  The asynchronous body of \<^verbatim>\<open>stream\<close> ends (\<open>Settled\<close>), waits for ever on a promise
  that never settles (\<open>Pending\<close>), or rejects with what its \<^verbatim>\<open>catch\<close> block let out
  (\<open>Unhandled\<close>).
\<close>

datatype 'r stream_event =
    Net net_event
  | OnChunk 'r
  | OnDone

datatype done_callback = Returns | Throws string

record 'r callbacks =
  onChunkThrows :: "'r \<Rightarrow> bool"
  onDone :: "done_callback option"

datatype session_status = Settled | Pending | Unhandled thrown

text \<open>
  The inner \<^verbatim>\<open>try\<close> block: parse, then \<^verbatim>\<open>onChunk\<close>; its \<^verbatim>\<open>catch\<close> logs whatever
  either of them threw and goes on.
\<close>

definition deliver :: "(utf16 \<Rightarrow> 'r option) \<Rightarrow> 'r callbacks \<Rightarrow> string \<Rightarrow> utf16 \<Rightarrow> 'r stream_event list" where
  "deliver parse cb label src =
     (case parse src of
        None \<Rightarrow> [Net (LogError label)]
      | Some chunk \<Rightarrow>
          (if onChunkThrows cb chunk then [OnChunk chunk, Net (LogError label)]
           else [OnChunk chunk]))"

lemma indexOf_less: "indexOf c xs = Some i \<Longrightarrow> i < length xs"
  by (induction xs arbitrary: i) (auto split: if_splits)

text \<open>
  The loop \<^verbatim>\<open>while ((newlineIndex = buffer.indexOf('\\n')) !== -1)\<close>: the rest of the
  buffer and the events of the complete lines.
\<close>

definition handleLine :: "(utf16 \<Rightarrow> 'r option) \<Rightarrow> 'r callbacks \<Rightarrow> utf16 \<Rightarrow> 'r stream_event list" where
  "handleLine parse cb line =
     (if line \<noteq> [] then deliver parse cb ''Error parsing JSON:'' line else [])"

function drainLines :: "(utf16 \<Rightarrow> 'r option) \<Rightarrow> 'r callbacks \<Rightarrow> utf16 \<Rightarrow> utf16 \<times> 'r stream_event list" where
  "drainLines parse cb buffer =
     (case indexOf 0x0A buffer of
        None \<Rightarrow> (buffer, [])
      | Some newlineIndex \<Rightarrow>
          (case drainLines parse cb (drop (newlineIndex + 1) buffer) of
             (buffer', evs) \<Rightarrow>
               (buffer', handleLine parse cb (trim16 (take newlineIndex buffer)) @ evs)))"
  by pat_completeness auto
termination
  by (relation "measure (\<lambda>(parse, cb, buffer). length buffer)") (auto dest: indexOf_less)

declare drainLines.simps [simp del]

text \<open>
  The outer \<^verbatim>\<open>catch\<close> block, given \<^verbatim>\<open>controller.signal.aborted\<close> and the error caught.
\<close>

definition catchBlock :: "'r callbacks \<Rightarrow> bool \<Rightarrow> thrown \<Rightarrow> 'r stream_event list \<times> session_status" where
  "catchBlock cb aborted error =
     (let logged =
            (if \<not> aborted then
               (if instanceofOllamaAPIError error then [Net (LogError ''Stream error:'')]
                else [Net (LogError ''Network error in stream:'')])
             else [])
      in case onDone cb of
           None \<Rightarrow> (logged, Settled)
         | Some Returns \<Rightarrow> (logged @ [OnDone], Settled)
         | Some (Throws m) \<Rightarrow> (logged @ [OnDone], Unhandled (OtherError m)))"

text \<open>
  The loop \<^verbatim>\<open>while (!reader.closed)\<close> over the results of the successive \<^verbatim>\<open>read()\<close>
  calls. \<open>cancel\<close> is \<open>None\<close> when the returned cancel function is never called, and
  \<open>Some n\<close> when it is called after \<open>n\<close> more awaited promises have settled: the next
  one then rejects, with the signal aborted.
\<close>

fun readLoop :: "(utf16 \<Rightarrow> 'r option) \<Rightarrow> 'r callbacks \<Rightarrow> bool \<Rightarrow> nat option \<Rightarrow> utf8_decoder \<Rightarrow> utf16 \<Rightarrow>
    read_result list \<Rightarrow> 'r stream_event list \<times> session_status" where
  "readLoop parse cb isClosed cancel decoder buffer [] =
     (if isClosed then ([], Settled)
      else if cancel = None then ([], Pending)
      else catchBlock cb True (OtherError ''This operation was aborted''))"
| "readLoop parse cb isClosed cancel decoder buffer (r # rs) =
     (if isClosed then ([], Settled)
      else if cancel = Some 0 then catchBlock cb True (OtherError ''This operation was aborted'')
      else
        (case r of
           Done \<Rightarrow>
             (let evs = (if trim16 buffer \<noteq> []
                         then deliver parse cb ''Error parsing JSON from buffer:'' buffer
                         else [])
              in case onDone cb of
                   None \<Rightarrow> (evs, Settled)
                 | Some Returns \<Rightarrow> (evs @ [OnDone], Settled)
                 | Some (Throws m) \<Rightarrow>
                     (case catchBlock cb False (OtherError m) of
                        (evs', st) \<Rightarrow> (evs @ [OnDone] @ evs', st)))
         | ReadRejects m \<Rightarrow> catchBlock cb False (OtherError m)
         | Chunk val \<Rightarrow>
             (case decode decoder val of (decoder', decoded) \<Rightarrow>
                (case drainLines parse cb (buffer @ decoded) of (buffer', evs) \<Rightarrow>
                   (case readLoop parse cb isClosed (map_option (\<lambda>n. n - 1) cancel) decoder' buffer' rs of
                      (evs', st) \<Rightarrow> (evs @ evs', st))))))"

text \<open>
  \<^verbatim>\<open>stream\<close>: the events and the final state of the session it starts. The awaited
  promises are \<^verbatim>\<open>fetch\<close>, then \<^verbatim>\<open>response.text()\<close> or the \<^verbatim>\<open>read()\<close> calls. No
  timer is armed: one of them that never settles leaves the session pending, unless the
  cancel function is called, which aborts it.
\<close>

definition stream :: "config \<Rightarrow> (utf16 \<Rightarrow> 'r option) \<Rightarrow> (string \<Rightarrow> 'req \<Rightarrow> fetch_outcome) \<Rightarrow> nat option \<Rightarrow>
    string \<Rightarrow> 'req \<Rightarrow> 'r callbacks \<Rightarrow> 'r stream_event list \<times> session_status" where
  "stream cfg parse env cancel endpoint data cb =
     (let url = baseUrl cfg @ ''/'' @ endpoint in
      if cancel = Some 0 then
        (case catchBlock cb True (OtherError ''This operation was aborted'') of
           (evs, st) \<Rightarrow> (Net (Fetch url) # evs, st))
      else
        (case env url data of
           Hangs \<Rightarrow>
             (if cancel = None then ([Net (Fetch url)], Pending)
              else (case catchBlock cb True (OtherError ''This operation was aborted'') of
                      (evs, st) \<Rightarrow> (Net (Fetch url) # evs, st)))
         | Rejects m \<Rightarrow>
             (case catchBlock cb False (OtherError m) of (evs, st) \<Rightarrow> (Net (Fetch url) # evs, st))
         | Resolves resp \<Rightarrow>
             (if \<not> ok resp then
                (if cancel = Some 1 then
                   (case catchBlock cb True (OtherError ''This operation was aborted'') of
                      (evs, st) \<Rightarrow> (Net (Fetch url) # evs, st))
                 else
                   (case bodyText resp of
                      Rejects m \<Rightarrow>
                        (case catchBlock cb False (OtherError m) of
                           (evs, st) \<Rightarrow> (Net (Fetch url) # evs, st))
                    | Hangs \<Rightarrow>
                        (if cancel = None then ([Net (Fetch url)], Pending)
                         else (case catchBlock cb True (OtherError ''This operation was aborted'') of
                                 (evs, st) \<Rightarrow> (Net (Fetch url) # evs, st)))
                    | Resolves t \<Rightarrow>
                        (case catchBlock cb False (OllamaAPIError (''API error: '' @ t) (Some (status resp))) of
                           (evs, st) \<Rightarrow> (Net (Fetch url) # Net (LogError ''API error'') # evs, st))))
              else
                (case body resp of
                   None \<Rightarrow>
                     (case catchBlock cb False (OllamaAPIError ''Response body is null'' None) of
                        (evs, st) \<Rightarrow> (Net (Fetch url) # evs, st))
                 | Some rd \<Rightarrow>
                     (case readLoop parse cb (closed rd) (map_option (\<lambda>n. n - 1) cancel)
                             newTextDecoder [] (reads rd) of
                        (evs, st) \<Rightarrow> (Net (Fetch url) # evs, st))))))"

text \<open>The \<^verbatim>\<open>read()\<close> results that carry bytes and leave the loop running.\<close>

fun isChunk :: "read_result \<Rightarrow> bool" where
  "isChunk (Chunk val) = True"
| "isChunk r = False"

text \<open>The records passed to \<^verbatim>\<open>onChunk\<close>, the network effects, the calls of \<^verbatim>\<open>onDone\<close>.\<close>

fun records :: "'r stream_event list \<Rightarrow> 'r list" where
  "records [] = []"
| "records (OnChunk r # evs) = r # records evs"
| "records (e # evs) = records evs"

fun netEvents :: "'r stream_event list \<Rightarrow> net_event list" where
  "netEvents [] = []"
| "netEvents (Net e # evs) = e # netEvents evs"
| "netEvents (e # evs) = netEvents evs"

fun doneCalls :: "'r stream_event list \<Rightarrow> nat" where
  "doneCalls [] = 0"
| "doneCalls (OnDone # evs) = Suc (doneCalls evs)"
| "doneCalls (e # evs) = doneCalls evs"

text \<open>
  The records of a whole payload, after the specification: the decoded text is cut at its
  newlines; every line before the last newline is trimmed and, when not empty, parsed, a
  line that does not parse being left out; the residue after the last newline, when not
  empty once trimmed, is parsed as it is.
\<close>

fun splitOn :: "'a \<Rightarrow> 'a list \<Rightarrow> 'a list list" where
  "splitOn c [] = [[]]"
| "splitOn c (x # xs) =
     (if x = c then [] # splitOn c xs
      else (case splitOn c xs of [] \<Rightarrow> [[x]] | l # ls \<Rightarrow> (x # l) # ls))"

definition spec_lineRecord :: "(utf16 \<Rightarrow> 'r option) \<Rightarrow> utf16 \<Rightarrow> 'r option" where
  "spec_lineRecord parse l = (if trim16 l = [] then None else parse (trim16 l))"

definition spec_residueRecord :: "(utf16 \<Rightarrow> 'r option) \<Rightarrow> utf16 \<Rightarrow> 'r option" where
  "spec_residueRecord parse l = (if trim16 l = [] then None else parse l)"

definition spec_records :: "(utf16 \<Rightarrow> 'r option) \<Rightarrow> byte list \<Rightarrow> 'r list" where
  "spec_records parse payload =
     (let lines = splitOn 0x0A (snd (decode newTextDecoder payload))
      in List.map_filter (spec_lineRecord parse) (butlast lines)
         @ (case spec_residueRecord parse (last lines) of None \<Rightarrow> [] | Some r \<Rightarrow> [r]))"

subsection \<open>Concrete streams\<close>

text \<open>
  A stand-in for \<^verbatim>\<open>JSON.parse\<close> in the examples: it accepts the texts that start with
  an opening and end with a closing brace, and gives them back.
\<close>

definition acceptObjects :: "utf16 \<Rightarrow> utf16 option" where
  "acceptObjects s = (if s \<noteq> [] \<and> hd s = 0x7B \<and> last s = 0x7D then Some s else None)"

definition respStream :: response where
  "respStream = \<lparr>ok = True, status = 200, bodyText = Resolves [], bodyJson = Rejects ''Unexpected token'',
                  body = None\<rparr>"

definition quiet :: "utf16 callbacks" where
  "quiet = \<lparr>onChunkThrows = (\<lambda>r. False), onDone = Some Returns\<rparr>"



text \<open>
  The body \<^verbatim>\<open>{}\<close>, newline, \<^verbatim>\<open>oops\<close>, newline, \<^verbatim>\<open>{}\<close>, newline, from a reader of the
  Streams API (\<^verbatim>\<open>closed\<close> is a promise) and from a reader with \<^verbatim>\<open>closed: false\<close>.
\<close>

definition closedReader :: reader where
  "closedReader = \<lparr>closed = True,
     reads = [Chunk [0x7B, 0x7D, 0x0A, 0x6F, 0x6F, 0x70, 0x73, 0x0A, 0x7B, 0x7D, 0x0A], Done]\<rparr>"

definition openReader :: reader where
  "openReader = closedReader\<lparr>closed := False\<rparr>"

section \<open>The AI service\<close>

subsection \<open>Strings\<close>

text \<open>
  The strings of the service are lists of 8-bit characters, read as the code points U+0000
  to U+00FF. \<open>isWhiteSpace\<close> holds of the ones \<^verbatim>\<open>trim\<close> removes, \<open>toLowerChar\<close> is
  \<^verbatim>\<open>toLowerCase\<close> on one of them (the letters A to Z and the accented capitals U+00C0 to
  U+00DE, the multiplication sign apart), \<open>stringIncludes\<close> is \<^verbatim>\<open>includes\<close>.
\<close>

definition isWhiteSpace :: "char \<Rightarrow> bool" where
  "isWhiteSpace c = (c \<in> set [CHR 0x09, CHR 0x0A, CHR 0x0B, CHR 0x0C, CHR 0x0D, CHR 0x20, CHR 0xA0])"

definition trim :: "string \<Rightarrow> string" where
  "trim = trimBy isWhiteSpace"

definition startsWith :: "string \<Rightarrow> string \<Rightarrow> bool" where
  "startsWith s p = (take (length p) s = p)"

fun stringIncludes :: "string \<Rightarrow> string \<Rightarrow> bool" where
  "stringIncludes [] p = (p = [])"
| "stringIncludes (c # cs) p = (startsWith (c # cs) p \<or> stringIncludes cs p)"

definition toLowerChar :: "char \<Rightarrow> char" where
  "toLowerChar c =
     (let n = (of_char c :: nat)
      in if (0x41 \<le> n \<and> n \<le> 0x5A) \<or> (0xC0 \<le> n \<and> n \<le> 0xDE \<and> n \<noteq> 0xD7)
         then char_of (n + 0x20) else c)"

definition toLowerCase :: "string \<Rightarrow> string" where
  "toLowerCase s = map toLowerChar s"

text \<open>
  The test \<^verbatim>\<open>/^[\w-]+(\.[\w-]+)+$/\<close>: labels of word characters and hyphens, none
  empty, two at least, with a dot between two consecutive ones. \<open>bareDomainFrom\<close> reads the
  string from left to right and remembers whether the current label has a character and
  whether a dot has been passed.
\<close>

definition isWordOrHyphen :: "char \<Rightarrow> bool" where
  "isWordOrHyphen c =
     (c \<in> set ''abcdefghijklmnopqrstuvwxyzABCDEFGHIJKLMNOPQRSTUVWXYZ0123456789_-'')"

fun bareDomainFrom :: "bool \<Rightarrow> bool \<Rightarrow> string \<Rightarrow> bool" where
  "bareDomainFrom inLabel seenDot [] = (inLabel \<and> seenDot)"
| "bareDomainFrom inLabel seenDot (c # cs) =
     (if isWordOrHyphen c then bareDomainFrom True seenDot cs
      else if c = CHR ''.'' \<and> inLabel then bareDomainFrom False True cs
      else False)"

definition isBareDomain :: "string \<Rightarrow> bool" where
  "isBareDomain s = bareDomainFrom False False s"

text \<open>The two \<^verbatim>\<open>includes\<close> tests of \<^verbatim>\<open>preprocessQuery\<close>, taken together.\<close>

definition hasNavigationVerb :: "string \<Rightarrow> bool" where
  "hasNavigationVerb s =
     (stringIncludes (toLowerCase s) ''go to'' \<or> stringIncludes (toLowerCase s) ''navigate'')"

definition preprocessQuery :: "string \<Rightarrow> string" where
  "preprocessQuery query =
     (let processedQuery = trim query;
          processedQuery =
            (if isBareDomain processedQuery then ''https://'' @ processedQuery else processedQuery);
          processedQuery =
            (if startsWith processedQuery ''http'' \<and>
                \<not> stringIncludes (toLowerCase processedQuery) ''go to'' \<and>
                \<not> stringIncludes (toLowerCase processedQuery) ''navigate''
             then ''Navigate to '' @ processedQuery else processedQuery)
      in processedQuery)"

subsection \<open>Extraction\<close>

text \<open>
  \<^verbatim>\<open>response.match(/```json([\s\S]*?)```|{[\s\S]*}/)\<close>. The match is looked for at
  each position from the left, the fenced alternative before the brace alternative. The
  fenced alternative takes the opening fence and the shortest text up to a closing fence,
  which is its group; the brace alternative takes an opening brace and the longest text
  up to a closing brace, and has no group. The result is the matched text and the group.
\<close>

fun untilFence :: "string \<Rightarrow> string option" where
  "untilFence [] = None"
| "untilFence (c # cs) =
     (if take 3 (c # cs) = ''```'' then Some [] else map_option ((#) c) (untilFence cs))"

definition matchFenceAt :: "string \<Rightarrow> (string \<times> string option) option" where
  "matchFenceAt s =
     (if take 7 s = ''```json'' then
        (case untilFence (drop 7 s) of
           None \<Rightarrow> None
         | Some g \<Rightarrow> Some (''```json'' @ g @ ''```'', Some g))
      else None)"

definition matchBraceAt :: "string \<Rightarrow> (string \<times> string option) option" where
  "matchBraceAt s =
     (case s of
        [] \<Rightarrow> None
      | c # cs \<Rightarrow>
          (if c = CHR ''{'' \<and> CHR ''}'' \<in> set cs
           then Some (rev (dropWhile (\<lambda>x. x \<noteq> CHR ''}'') (rev (c # cs))), None)
           else None))"

fun regexMatch :: "string \<Rightarrow> (string \<times> string option) option" where
  "regexMatch [] = None"
| "regexMatch (c # cs) =
     (case matchFenceAt (c # cs) of
        Some m \<Rightarrow> Some m
      | None \<Rightarrow>
          (case matchBraceAt (c # cs) of
             Some m \<Rightarrow> Some m
           | None \<Rightarrow> regexMatch cs))"

text \<open>
  The local \<^verbatim>\<open>jsonStr\<close>, the text handed to \<^verbatim>\<open>JSON.parse\<close>: the trimmed group when
  there is one and it is not empty, the trimmed match otherwise; \<open>None\<close> without a match.
\<close>

definition jsonStr :: "string \<Rightarrow> string option" where
  "jsonStr response =
     (case regexMatch response of
        None \<Rightarrow> None
      | Some (m0, m1) \<Rightarrow>
          (case m1 of
             None \<Rightarrow> Some (trim m0)
           | Some g \<Rightarrow> if g \<noteq> [] then Some (trim g) else Some (trim m0)))"

text \<open>
  \<^verbatim>\<open>extractStructuredData\<close>, with \<^verbatim>\<open>JSON.parse\<close> as the parameter \<open>parse\<close> (\<open>None\<close>
  where it throws). Its own \<^verbatim>\<open>catch\<close> turns every error into \<^verbatim>\<open>undefined\<close>: the
  syntax error of the parser, and the type error of calling \<^verbatim>\<open>match\<close> on a value that
  is not a string.
\<close>

definition extractStructuredData :: "(string \<Rightarrow> jsval option) \<Rightarrow> jsval \<Rightarrow> jsval" where
  "extractStructuredData parse response =
     (case response of
        JStr s \<Rightarrow>
          (case jsonStr s of
             None \<Rightarrow> JUndefined
           | Some js \<Rightarrow> (case parse js of None \<Rightarrow> JUndefined | Some v \<Rightarrow> v))
      | other \<Rightarrow> JUndefined)"

text \<open>
  The span the specification asks for: from the first opening brace to the closing brace
  that brings the nesting depth back to zero, braces inside string literals (with their
  escapes) not counted.
\<close>

fun scanSpan :: "nat \<Rightarrow> bool \<Rightarrow> bool \<Rightarrow> string \<Rightarrow> string option" where
  "scanSpan depth inString escaped [] = None"
| "scanSpan depth inString escaped (c # cs) =
     (if inString then
        (if escaped then map_option ((#) c) (scanSpan depth True False cs)
         else if c = CHR 0x5C then map_option ((#) c) (scanSpan depth True True cs)
         else if c = CHR 0x22 then map_option ((#) c) (scanSpan depth False False cs)
         else map_option ((#) c) (scanSpan depth True False cs))
      else if c = CHR 0x22 then map_option ((#) c) (scanSpan depth True False cs)
      else if c = CHR ''{'' then map_option ((#) c) (scanSpan (Suc depth) False False cs)
      else if c = CHR ''}'' then
        (if depth \<le> 1 then Some [c] else map_option ((#) c) (scanSpan (depth - 1) False False cs))
      else map_option ((#) c) (scanSpan depth False False cs))"

definition spec_firstTopLevelSpan :: "string \<Rightarrow> string option" where
  "spec_firstTopLevelSpan response =
     (case dropWhile (\<lambda>c. c \<noteq> CHR ''{'') response of
        [] \<Rightarrow> None
      | c # cs \<Rightarrow> map_option ((#) c) (scanSpan 1 False False cs))"

text \<open>A stand-in for \<^verbatim>\<open>JSON.parse\<close> in the examples: it accepts the empty object only.\<close>

definition parseEmptyObject :: "string \<Rightarrow> jsval option" where
  "parseEmptyObject s = (if s = ''{}'' then Some (JObj []) else None)"

subsection \<open>Tool calls\<close>

text \<open>
  \<^verbatim>\<open>extractToolCalls\<close> works on whatever \<^verbatim>\<open>JSON.parse\<close> returned. Reading a property
  of \<^verbatim>\<open>null\<close> or \<^verbatim>\<open>undefined\<close> throws a type error, and so does the \<^verbatim>\<open>in\<close> operator
  on a value that is not an object. The messages are those of V8, the engine of Node.js
  and Electron; \<open>toString\<close> is the text of a primitive value in them (numbers are
  carried as integers).
\<close>

record tool_call =
  name :: jsval
  parameters :: jsval

definition quoted :: "string \<Rightarrow> string" where
  "quoted s = [CHR 0x27] @ s @ [CHR 0x27]"

function showNat :: "nat \<Rightarrow> string" where
  "showNat n =
     (if n < 10 then [''0123456789'' ! n]
      else showNat (n div 10) @ [''0123456789'' ! (n mod 10)])"
  by pat_completeness auto
termination
  by (relation "measure (\<lambda>n. n)") auto

declare showNat.simps [simp del]

fun toString :: "jsval \<Rightarrow> string" where
  "toString JUndefined = ''undefined''"
| "toString JNull = ''null''"
| "toString (JBool b) = (if b then ''true'' else ''false'')"
| "toString (JNum n) = (if n < 0 then ''-'' @ showNat (nat (- n)) else showNat (nat n))"
| "toString (JStr s) = s"
| "toString v = []"

definition getProperty :: "jsval \<Rightarrow> string \<Rightarrow> thrown + jsval" where
  "getProperty v k =
     (case v of
        JUndefined \<Rightarrow>
          Inl (OtherError (''Cannot read properties of undefined (reading '' @ quoted k @ '')''))
      | JNull \<Rightarrow>
          Inl (OtherError (''Cannot read properties of null (reading '' @ quoted k @ '')''))
      | other \<Rightarrow> Inr (member_of v k))"

definition inOperator :: "string \<Rightarrow> jsval \<Rightarrow> thrown + bool" where
  "inOperator k v =
     (case v of
        JObj kvs \<Rightarrow> Inr (hasProperty k v)
      | JArr xs \<Rightarrow> Inr False
      | other \<Rightarrow>
          Inl (OtherError (''Cannot use '' @ quoted ''in'' @ '' operator to search for '' @ quoted k
                           @ '' in '' @ toString v)))"

fun mapActions :: "jsval list \<Rightarrow> thrown + tool_call list" where
  "mapActions [] = Inr []"
| "mapActions (action # rest) =
     (case getProperty action ''action'' of
        Inl e \<Rightarrow> Inl e
      | Inr n \<Rightarrow>
          (case getProperty action ''parameters'' of
             Inl e \<Rightarrow> Inl e
           | Inr p \<Rightarrow>
               (case mapActions rest of
                  Inl e \<Rightarrow> Inl e
                | Inr calls \<Rightarrow> Inr (\<lparr>name = n, parameters = p\<rparr> # calls))))"

definition extractToolCalls :: "jsval \<Rightarrow> thrown + tool_call list option" where
  "extractToolCalls structuredData =
     (if \<not> truthy structuredData then Inr None
      else
        (case inOperator ''browser_actions'' structuredData of
           Inl e \<Rightarrow> Inl e
         | Inr present \<Rightarrow>
             (if present then
                (case member_of structuredData ''browser_actions'' of
                   JArr actions \<Rightarrow>
                     (case mapActions actions of Inl e \<Rightarrow> Inl e | Inr calls \<Rightarrow> Inr (Some calls))
                 | other \<Rightarrow> Inr None)
              else Inr None)))"

subsection \<open>The query\<close>

text \<open>
  \<^verbatim>\<open>chat\<close> sends the request through \<^verbatim>\<open>post\<close>, with the default model in place of an
  empty one and streaming off. \<^verbatim>\<open>query\<close> is a \<^verbatim>\<open>try\<close> block, \<open>queryTry\<close>, and its
  \<^verbatim>\<open>catch\<close> block. The response is the JSON the service sent, read as it comes:
  \<^verbatim>\<open>response.message.content\<close> may be anything, and may not be there. In the result,
  \<open>text'\<close> and \<open>error'\<close> are the fields \<^verbatim>\<open>text\<close> and \<^verbatim>\<open>error\<close>, and an absent field
  is \<open>JUndefined\<close> or \<open>None\<close>. \<^verbatim>\<open>query\<close> awaits nothing but \<^verbatim>\<open>chat\<close>: it stays
  pending exactly when \<^verbatim>\<open>chat\<close> does.
\<close>

record chat_message =
  role :: string
  content :: string

record chat_request =
  req_model :: string
  req_messages :: "chat_message list"
  req_format :: "string option"
  req_stream :: bool

definition chat :: "config \<Rightarrow> (string \<Rightarrow> chat_request \<Rightarrow> nat \<Rightarrow> fetch_outcome) \<Rightarrow> chat_request \<Rightarrow>
    jsval settlement \<times> net_event list" where
  "chat cfg env params =
     post cfg env ''chat''
       (params\<lparr>req_model := (if req_model params \<noteq> [] then req_model params else defaultModel cfg),
               req_stream := False\<rparr>)"

record ai_service =
  client :: config
  systemPrompt :: string

record ai_query_response =
  text' :: jsval
  structuredOutput :: jsval
  toolCalls :: "tool_call list option"
  error' :: "string option"

definition queryParams :: "ai_service \<Rightarrow> string \<Rightarrow> chat_request" where
  "queryParams svc query =
     \<lparr>req_model = defaultModel (client svc),
      req_messages = [\<lparr>role = ''system'', content = systemPrompt svc\<rparr>,
                      \<lparr>role = ''user'', content = preprocessQuery query\<rparr>],
      req_format = Some ''json'',
      req_stream = False\<rparr>"

definition queryTry :: "ai_service \<Rightarrow> (string \<Rightarrow> jsval option) \<Rightarrow>
    (string \<Rightarrow> chat_request \<Rightarrow> nat \<Rightarrow> fetch_outcome) \<Rightarrow> string \<Rightarrow> ai_query_response settlement" where
  "queryTry svc parse env query =
     (case fst (chat (client svc) env (queryParams svc query)) of
        None \<Rightarrow> None
      | Some (Inl e) \<Rightarrow> Some (Inl e)
      | Some (Inr response) \<Rightarrow>
          (case getProperty response ''message'' of
             Inl e \<Rightarrow> Some (Inl e)
           | Inr msg \<Rightarrow>
               (case getProperty msg ''content'' of
                  Inl e \<Rightarrow> Some (Inl e)
                | Inr responseText \<Rightarrow>
                    (case (if truthy (extractStructuredData parse responseText)
                           then extractToolCalls (extractStructuredData parse responseText)
                           else Inr None) of
                       Inl e \<Rightarrow> Some (Inl e)
                     | Inr calls \<Rightarrow>
                         Some (Inr \<lparr>text' = responseText,
                                    structuredOutput = extractStructuredData parse responseText,
                                    toolCalls = calls,
                                    error' = None\<rparr>)))))"

definition query :: "ai_service \<Rightarrow> (string \<Rightarrow> jsval option) \<Rightarrow>
    (string \<Rightarrow> chat_request \<Rightarrow> nat \<Rightarrow> fetch_outcome) \<Rightarrow> string \<Rightarrow> ai_query_response settlement" where
  "query svc parse env q =
     (case queryTry svc parse env q of
        None \<Rightarrow> None
      | Some (Inr result) \<Rightarrow> Some (Inr result)
      | Some (Inl error) \<Rightarrow>
          (if instanceofOllamaAPIError error \<or> instanceofOllamaNetworkError error then
             Some (Inr \<lparr>text' = JStr ''I encountered an error communicating with my AI backend.'',
                  structuredOutput = JUndefined, toolCalls = None, error' = Some (message error)\<rparr>)
           else
             Some (Inr \<lparr>text' = JStr ''I encountered an unexpected error.'',
                  structuredOutput = JUndefined, toolCalls = None, error' = Some (message error)\<rparr>)))"

text \<open>A service on the default configuration, and two behaviours of the backend.\<close>

definition service3 :: ai_service where
  "service3 = \<lparr>client = cfg3, systemPrompt = ''You are an AI assistant''\<rparr>"

definition envChat500 :: "string \<Rightarrow> chat_request \<Rightarrow> nat \<Rightarrow> fetch_outcome" where
  "envChat500 url data k = Resolves resp500"

definition envChatReply :: "jsval \<Rightarrow> string \<Rightarrow> chat_request \<Rightarrow> nat \<Rightarrow> fetch_outcome" where
  "envChatReply reply url data k =
     Resolves \<lparr>ok = True, status = 200, bodyText = Resolves [], bodyJson = Resolves reply, body = None\<rparr>"

section \<open>The transport executor: \<^verbatim>\<open>post\<close>\<close>

lemma threw_iff: "threw r = (\<exists>error. r = Some (Inl error))"
  by (cases r rule: threw.cases) auto

lemma attemptOnce_schedule:
  "filter (\<lambda>e. isFetch e \<or> isSleep e) (snd (attemptOnce cfg url out)) = [Fetch url]"
  by (auto simp: attemptOnce_def split: promise.splits)

lemma attemptOnce_not_network:
  "fst (attemptOnce cfg url out) = Some (Inl error) \<Longrightarrow> \<not> instanceofOllamaNetworkError error"
  by (auto simp: attemptOnce_def split: promise.splits if_splits)

lemma attemptOnce_success:
  "fst (attemptOnce cfg url out) = Some (Inr result) \<Longrightarrow> \<not> isErrorResponse result"
  by (auto simp: attemptOnce_def split: promise.splits if_splits)

text \<open>
  An attempt returns exactly the parsed body of a response with a success status that is
  not an error payload, and stays pending exactly when the body read it awaits does.
\<close>

lemma attemptOnce_returns:
  "(fst (attemptOnce cfg url out) = Some (Inr result)) =
     (\<exists>resp. out = Resolves resp \<and> ok resp \<and> bodyJson resp = Resolves result \<and> \<not> isErrorResponse result)"
  by (auto simp: attemptOnce_def split: promise.splits if_splits)

lemma attemptOnce_pending:
  "(fst (attemptOnce cfg url out) = None) =
     (\<exists>resp. out = Resolves resp \<and> (if ok resp then bodyJson resp = Hangs else bodyText resp = Hangs))"
  by (auto simp: attemptOnce_def split: promise.splits if_splits)

lemma surfaced_not_fallthrough:
  "fst (attemptOnce cfg url out) = Some (Inl error) \<Longrightarrow>
     surfaced error \<noteq> OllamaAPIError ''Maximum retry attempts reached'' None"
  by (auto simp: attemptOnce_def surfaced_def split: promise.splits if_splits)

text \<open>
  When every remaining attempt fails, the loop makes all of them, sleeps between two
  consecutive ones and ends with the error of the last.
\<close>

lemma postLoop_all_fail:
  assumes "nat (retryAttempts cfg - attempt) = Suc n" "0 \<le> attempt"
    and "\<forall>k. nat attempt < k \<and> k \<le> nat (retryAttempts cfg) \<longrightarrow> threw (fst (attemptOnce cfg url (env k)))"
  shows "filter (\<lambda>e. isFetch e \<or> isSleep e) (snd (postLoop cfg env url attempt)) =
           concat (replicate n [Fetch url, Sleep (retryDelayMs cfg)]) @ [Fetch url]
         \<and> (\<exists>error. fst (attemptOnce cfg url (env (nat (retryAttempts cfg)))) = Some (Inl error)
                  \<and> fst (postLoop cfg env url attempt) = Some (Inl (surfaced error)))"
  using assms
proof (induction n arbitrary: attempt)
  case 0
  then have eq: "retryAttempts cfg = attempt + 1" by simp
  have "threw (fst (attemptOnce cfg url (env (nat (attempt + 1)))))"
    using 0 eq by auto
  then obtain error evs where ao: "attemptOnce cfg url (env (nat (attempt + 1))) = (Some (Inl error), evs)"
    by (cases "attemptOnce cfg url (env (nat (attempt + 1)))") (auto simp: threw_iff)
  have evs: "filter (\<lambda>e. isFetch e \<or> isSleep e) evs = [Fetch url]"
    using attemptOnce_schedule[of cfg url "env (nat (attempt + 1))"] ao by simp
  show ?case
    using ao evs eq by (subst (1 2) postLoop.simps) (simp add: surfaced_def)
next
  case (Suc n)
  then have lt: "attempt + 1 < retryAttempts cfg" by simp
  have "threw (fst (attemptOnce cfg url (env (nat (attempt + 1)))))"
    using Suc.prems lt by auto
  then obtain error evs where ao: "attemptOnce cfg url (env (nat (attempt + 1))) = (Some (Inl error), evs)"
    by (cases "attemptOnce cfg url (env (nat (attempt + 1)))") (auto simp: threw_iff)
  have evs: "filter (\<lambda>e. isFetch e \<or> isSleep e) evs = [Fetch url]"
    using attemptOnce_schedule[of cfg url "env (nat (attempt + 1))"] ao by simp
  have ih: "filter (\<lambda>e. isFetch e \<or> isSleep e) (snd (postLoop cfg env url (attempt + 1))) =
           concat (replicate n [Fetch url, Sleep (retryDelayMs cfg)]) @ [Fetch url]
         \<and> (\<exists>error. fst (attemptOnce cfg url (env (nat (retryAttempts cfg)))) = Some (Inl error)
                  \<and> fst (postLoop cfg env url (attempt + 1)) = Some (Inl (surfaced error)))"
  proof (rule Suc.IH)
    show "nat (retryAttempts cfg - (attempt + 1)) = Suc n" using Suc.prems(1) by simp
    show "0 \<le> attempt + 1" using Suc.prems(2) by simp
    show "\<forall>k. nat (attempt + 1) < k \<and> k \<le> nat (retryAttempts cfg) \<longrightarrow>
        threw (fst (attemptOnce cfg url (env k)))"
      using Suc.prems(2,3) by auto
  qed
  show ?case
    using ao evs lt ih
    by (subst (1 2) postLoop.simps) (simp add: split_beta)
qed

text \<open>
  With at least one attempt left, the loop ends inside an attempt \<open>k\<close>: every attempt
  before it has failed, and it is either one that returns, or one that stays pending, or
  the last one and failing. The outbound calls and pauses are those of \<open>k\<close> attempts.
\<close>

lemma postLoop_ends_here:
  assumes "attempt < retryAttempts cfg"
    and "\<not> threw (fst (attemptOnce cfg url (env (nat (attempt + 1))))) \<or> retryAttempts cfg \<le> attempt + 1"
  shows "filter (\<lambda>e. isFetch e \<or> isSleep e) (snd (postLoop cfg env url attempt)) = [Fetch url]
       \<and> (case fst (attemptOnce cfg url (env (nat (attempt + 1)))) of
            None \<Rightarrow> fst (postLoop cfg env url attempt) = None
          | Some (Inr result) \<Rightarrow> fst (postLoop cfg env url attempt) = Some (Inr result)
          | Some (Inl error) \<Rightarrow>
              nat (attempt + 1) = nat (retryAttempts cfg)
              \<and> fst (postLoop cfg env url attempt) = Some (Inl (surfaced error)))"
proof -
  obtain r evs where ao: "attemptOnce cfg url (env (nat (attempt + 1))) = (r, evs)"
    by (cases "attemptOnce cfg url (env (nat (attempt + 1)))")
  have evs: "filter (\<lambda>e. isFetch e \<or> isSleep e) evs = [Fetch url]"
    using attemptOnce_schedule[of cfg url "env (nat (attempt + 1))"] ao by simp
  show ?thesis
  proof (cases r)
    case None
    then have "postLoop cfg env url attempt = (None, evs)"
      using ao assms(1) by (subst postLoop.simps) simp
    then show ?thesis using ao evs None by simp
  next
    case (Some x)
    show ?thesis
    proof (cases x)
      case (Inr v)
      then have "postLoop cfg env url attempt = (Some (Inr v), evs)"
        using ao Some assms(1) by (subst postLoop.simps) simp
      then show ?thesis using ao evs Some Inr by simp
    next
      case (Inl error)
      then have eq: "retryAttempts cfg = attempt + 1"
        using assms ao Some by simp
      have "fst (postLoop cfg env url attempt) = Some (Inl (surfaced error))
          \<and> filter (\<lambda>e. isFetch e \<or> isSleep e) (snd (postLoop cfg env url attempt)) = [Fetch url]"
        using ao evs Some Inl eq by (subst (1 2) postLoop.simps) (simp add: surfaced_def)
      then show ?thesis using ao Some Inl eq by simp
    qed
  qed
qed

lemma postLoop_outcome:
  assumes "nat (retryAttempts cfg - attempt) = Suc n" "0 \<le> attempt"
  shows "\<exists>k. nat attempt < k \<and> k \<le> nat (retryAttempts cfg)
           \<and> (\<forall>j. nat attempt < j \<and> j < k \<longrightarrow> threw (fst (attemptOnce cfg url (env j))))
           \<and> filter (\<lambda>e. isFetch e \<or> isSleep e) (snd (postLoop cfg env url attempt)) =
               concat (replicate (k - nat attempt - 1) [Fetch url, Sleep (retryDelayMs cfg)]) @ [Fetch url]
           \<and> (case fst (attemptOnce cfg url (env k)) of
                None \<Rightarrow> fst (postLoop cfg env url attempt) = None
              | Some (Inr result) \<Rightarrow> fst (postLoop cfg env url attempt) = Some (Inr result)
              | Some (Inl error) \<Rightarrow>
                  k = nat (retryAttempts cfg) \<and> fst (postLoop cfg env url attempt) = Some (Inl (surfaced error)))"
  using assms
proof (induction n arbitrary: attempt)
  case 0
  then have lt: "attempt < retryAttempts cfg" and last: "retryAttempts cfg \<le> attempt + 1" by simp_all
  have s: "nat (attempt + 1) = Suc (nat attempt)"
    using "0.prems"(2) by (simp add: nat_add_distrib)
  have here: "filter (\<lambda>e. isFetch e \<or> isSleep e) (snd (postLoop cfg env url attempt)) = [Fetch url]
       \<and> (case fst (attemptOnce cfg url (env (nat (attempt + 1)))) of
            None \<Rightarrow> fst (postLoop cfg env url attempt) = None
          | Some (Inr result) \<Rightarrow> fst (postLoop cfg env url attempt) = Some (Inr result)
          | Some (Inl error) \<Rightarrow>
              nat (attempt + 1) = nat (retryAttempts cfg)
              \<and> fst (postLoop cfg env url attempt) = Some (Inl (surfaced error)))"
    using lt last by (intro postLoop_ends_here) simp_all
  have 1: "nat attempt < nat (attempt + 1)" using s by simp
  have 2: "nat (attempt + 1) \<le> nat (retryAttempts cfg)" using lt by simp
  have 3: "\<forall>j. nat attempt < j \<and> j < nat (attempt + 1) \<longrightarrow> threw (fst (attemptOnce cfg url (env j)))"
    using s by auto
  have 4: "filter (\<lambda>e. isFetch e \<or> isSleep e) (snd (postLoop cfg env url attempt)) =
             concat (replicate (nat (attempt + 1) - nat attempt - 1) [Fetch url, Sleep (retryDelayMs cfg)]) @ [Fetch url]"
    using here s by simp
  show ?case using 1 2 3 4 here by blast
next
  case (Suc n)
  then have lt1: "attempt + 1 < retryAttempts cfg" by simp
  then have lt: "attempt < retryAttempts cfg" by simp
  obtain r evs where ao: "attemptOnce cfg url (env (nat (attempt + 1))) = (r, evs)"
    by (cases "attemptOnce cfg url (env (nat (attempt + 1)))")
  have evs: "filter (\<lambda>e. isFetch e \<or> isSleep e) evs = [Fetch url]"
    using attemptOnce_schedule[of cfg url "env (nat (attempt + 1))"] ao by simp
  have s: "nat (attempt + 1) = Suc (nat attempt)"
    using Suc.prems(2) by (simp add: nat_add_distrib)
  show ?case
  proof (cases "threw r")
    case False
    then have nt: "\<not> threw (fst (attemptOnce cfg url (env (nat (attempt + 1)))))"
      using ao by simp
    have here: "filter (\<lambda>e. isFetch e \<or> isSleep e) (snd (postLoop cfg env url attempt)) = [Fetch url]
       \<and> (case fst (attemptOnce cfg url (env (nat (attempt + 1)))) of
            None \<Rightarrow> fst (postLoop cfg env url attempt) = None
          | Some (Inr result) \<Rightarrow> fst (postLoop cfg env url attempt) = Some (Inr result)
          | Some (Inl error) \<Rightarrow>
              nat (attempt + 1) = nat (retryAttempts cfg)
              \<and> fst (postLoop cfg env url attempt) = Some (Inl (surfaced error)))"
      using lt nt by (intro postLoop_ends_here) simp_all
    have 1: "nat attempt < nat (attempt + 1)" using s by simp
    have 2: "nat (attempt + 1) \<le> nat (retryAttempts cfg)" using lt by simp
    have 3: "\<forall>j. nat attempt < j \<and> j < nat (attempt + 1) \<longrightarrow> threw (fst (attemptOnce cfg url (env j)))"
      using s by auto
    have 4: "filter (\<lambda>e. isFetch e \<or> isSleep e) (snd (postLoop cfg env url attempt)) =
             concat (replicate (nat (attempt + 1) - nat attempt - 1) [Fetch url, Sleep (retryDelayMs cfg)]) @ [Fetch url]"
      using here s by simp
    show ?thesis using 1 2 3 4 here by blast
  next
    case True
    then obtain error where r: "r = Some (Inl error)" by (auto simp: threw_iff)
    have "\<exists>k. nat (attempt + 1) < k \<and> k \<le> nat (retryAttempts cfg)
           \<and> (\<forall>j. nat (attempt + 1) < j \<and> j < k \<longrightarrow> threw (fst (attemptOnce cfg url (env j))))
           \<and> filter (\<lambda>e. isFetch e \<or> isSleep e) (snd (postLoop cfg env url (attempt + 1))) =
               concat (replicate (k - nat (attempt + 1) - 1) [Fetch url, Sleep (retryDelayMs cfg)]) @ [Fetch url]
           \<and> (case fst (attemptOnce cfg url (env k)) of
                None \<Rightarrow> fst (postLoop cfg env url (attempt + 1)) = None
              | Some (Inr result) \<Rightarrow> fst (postLoop cfg env url (attempt + 1)) = Some (Inr result)
              | Some (Inl error) \<Rightarrow>
                  k = nat (retryAttempts cfg) \<and> fst (postLoop cfg env url (attempt + 1)) = Some (Inl (surfaced error)))"
      using Suc.prems by (intro Suc.IH) simp_all
    then obtain k where k: "nat (attempt + 1) < k" "k \<le> nat (retryAttempts cfg)"
      and before: "\<forall>j. nat (attempt + 1) < j \<and> j < k \<longrightarrow> threw (fst (attemptOnce cfg url (env j)))"
      and sched: "filter (\<lambda>e. isFetch e \<or> isSleep e) (snd (postLoop cfg env url (attempt + 1))) =
               concat (replicate (k - nat (attempt + 1) - 1) [Fetch url, Sleep (retryDelayMs cfg)]) @ [Fetch url]"
      and res: "(case fst (attemptOnce cfg url (env k)) of
                None \<Rightarrow> fst (postLoop cfg env url (attempt + 1)) = None
              | Some (Inr result) \<Rightarrow> fst (postLoop cfg env url (attempt + 1)) = Some (Inr result)
              | Some (Inl error) \<Rightarrow>
                  k = nat (retryAttempts cfg) \<and> fst (postLoop cfg env url (attempt + 1)) = Some (Inl (surfaced error)))"
      by blast
    have step: "postLoop cfg env url attempt =
        (fst (postLoop cfg env url (attempt + 1)),
         evs @ [LogWarn ''Request failed, retrying'', Sleep (retryDelayMs cfg)] @ snd (postLoop cfg env url (attempt + 1)))"
      using ao r lt1 by (subst postLoop.simps) (simp add: split_beta)
    have fst_eq: "fst (postLoop cfg env url attempt) = fst (postLoop cfg env url (attempt + 1))"
      using step by simp
    have n: "k - nat attempt - 1 = Suc (k - nat (attempt + 1) - 1)"
      using k(1) s by simp
    have 1: "nat attempt < k" using k(1) s by simp
    have 2: "\<forall>j. nat attempt < j \<and> j < k \<longrightarrow> threw (fst (attemptOnce cfg url (env j)))"
    proof (intro allI impI)
      fix j assume j: "nat attempt < j \<and> j < k"
      show "threw (fst (attemptOnce cfg url (env j)))"
      proof (cases "j = nat (attempt + 1)")
        case True
        then show ?thesis using ao r by simp
      next
        case False
        then show ?thesis using before j s by simp
      qed
    qed
    have 3: "filter (\<lambda>e. isFetch e \<or> isSleep e) (snd (postLoop cfg env url attempt)) =
               concat (replicate (k - nat attempt - 1) [Fetch url, Sleep (retryDelayMs cfg)]) @ [Fetch url]"
      unfolding n using step evs sched by simp
    have 4: "(case fst (attemptOnce cfg url (env k)) of
                None \<Rightarrow> fst (postLoop cfg env url attempt) = None
              | Some (Inr result) \<Rightarrow> fst (postLoop cfg env url attempt) = Some (Inr result)
              | Some (Inl error) \<Rightarrow>
                  k = nat (retryAttempts cfg) \<and> fst (postLoop cfg env url attempt) = Some (Inl (surfaced error)))"
      unfolding fst_eq by (rule res)
    show ?thesis using 1 k(2) 2 3 4 by blast
  qed
qed

text \<open>What the loop returns is never an error payload.\<close>

lemma postLoop_result:
  assumes "nat (retryAttempts cfg - attempt) = n"
    and "fst (postLoop cfg env url attempt) = Some (Inr result)"
  shows "\<not> isErrorResponse result"
  using assms
proof (induction n arbitrary: attempt)
  case 0
  then have "\<not> attempt < retryAttempts cfg" by simp
  then show ?case using "0.prems"(2) by (subst (asm) postLoop.simps) simp
next
  case (Suc n)
  then have lt: "attempt < retryAttempts cfg" by simp
  obtain r evs where ao: "attemptOnce cfg url (env (nat (attempt + 1))) = (r, evs)"
    by (cases "attemptOnce cfg url (env (nat (attempt + 1)))")
  show ?case
  proof (cases r)
    case None
    then show ?thesis
      using Suc.prems(2) ao lt by (subst (asm) postLoop.simps) simp
  next
    case (Some x)
    show ?thesis
    proof (cases x)
      case (Inr v)
      then have "v = result"
        using Suc.prems(2) ao Some lt by (subst (asm) postLoop.simps) simp
      then show ?thesis
        using attemptOnce_success[of cfg url "env (nat (attempt + 1))" result] ao Some Inr by simp
    next
      case (Inl error)
      show ?thesis
      proof (cases "retryAttempts cfg \<le> attempt + 1")
        case True
        then show ?thesis
          using Suc.prems(2) ao Some Inl lt by (subst (asm) postLoop.simps) (simp split: if_splits)
      next
        case False
        then have "fst (postLoop cfg env url (attempt + 1)) = Some (Inr result)"
          using Suc.prems(2) ao Some Inl lt by (subst (asm) postLoop.simps) (simp add: split_beta)
        moreover have "nat (retryAttempts cfg - (attempt + 1)) = n"
          using Suc.prems(1) by simp
        ultimately show ?thesis by (rule Suc.IH[rotated])
      qed
    qed
  qed
qed

text \<open>
  Two environments whose attempts end the same way or fail together make the same
  outbound calls and pauses, and the call ends in one as it does in the other: returning
  the same result, failing, or staying pending.
\<close>

lemma postLoop_same_class:
  assumes "\<forall>k. fst (attemptOnce cfg url (env k)) = fst (attemptOnce cfg url (env' k))
             \<or> (threw (fst (attemptOnce cfg url (env k))) \<and> threw (fst (attemptOnce cfg url (env' k))))"
    and "nat (retryAttempts cfg - attempt) = n"
  shows "filter (\<lambda>e. isFetch e \<or> isSleep e) (snd (postLoop cfg env url attempt)) =
         filter (\<lambda>e. isFetch e \<or> isSleep e) (snd (postLoop cfg env' url attempt))
       \<and> (\<forall>r. (fst (postLoop cfg env url attempt) = Some (Inr r)) = (fst (postLoop cfg env' url attempt) = Some (Inr r)))
       \<and> threw (fst (postLoop cfg env url attempt)) = threw (fst (postLoop cfg env' url attempt))
       \<and> (fst (postLoop cfg env url attempt) = None) = (fst (postLoop cfg env' url attempt) = None)"
  using assms(2)
proof (induction n arbitrary: attempt)
  case 0
  then have "\<not> attempt < retryAttempts cfg" by simp
  then show ?case by (subst (1 2 3 4 5 6 7 8) postLoop.simps) simp
next
  case (Suc n)
  then have lt: "attempt < retryAttempts cfg" by simp
  have ih: "filter (\<lambda>e. isFetch e \<or> isSleep e) (snd (postLoop cfg env url (attempt + 1))) =
         filter (\<lambda>e. isFetch e \<or> isSleep e) (snd (postLoop cfg env' url (attempt + 1)))
       \<and> (\<forall>r. (fst (postLoop cfg env url (attempt + 1)) = Some (Inr r)) = (fst (postLoop cfg env' url (attempt + 1)) = Some (Inr r)))
       \<and> threw (fst (postLoop cfg env url (attempt + 1))) = threw (fst (postLoop cfg env' url (attempt + 1)))
       \<and> (fst (postLoop cfg env url (attempt + 1)) = None) = (fst (postLoop cfg env' url (attempt + 1)) = None)"
    using Suc.prems by (intro Suc.IH) simp
  obtain r evs where a: "attemptOnce cfg url (env (nat (attempt + 1))) = (r, evs)"
    by (cases "attemptOnce cfg url (env (nat (attempt + 1)))")
  obtain r' evs' where a': "attemptOnce cfg url (env' (nat (attempt + 1))) = (r', evs')"
    by (cases "attemptOnce cfg url (env' (nat (attempt + 1)))")
  have e: "filter (\<lambda>e. isFetch e \<or> isSleep e) evs = [Fetch url]"
          "filter (\<lambda>e. isFetch e \<or> isSleep e) evs' = [Fetch url]"
    using attemptOnce_schedule[of cfg url "env (nat (attempt + 1))"]
          attemptOnce_schedule[of cfg url "env' (nat (attempt + 1))"] a a' by simp_all
  have c: "r = r' \<or> (threw r \<and> threw r')"
    using assms(1)[rule_format, of "nat (attempt + 1)"] a a' by simp
  show ?case
    using lt ih a a' e c
    by (cases r rule: threw.cases; cases r' rule: threw.cases)
       (subst (1 2 3 4 5 6 7 8) postLoop.simps, simp add: split_beta)+
qed

text \<open>
  C4. With an attempt count N of at least 1 and every one of the N attempts failing,
  \<^verbatim>\<open>post\<close> makes exactly N outbound calls with the configured delay between two
  consecutive ones, and throws the error of the last attempt: that error as it is when
  it is a service-reported \<^verbatim>\<open>OllamaAPIError\<close>, wrapped in an \<^verbatim>\<open>OllamaNetworkError\<close>
  otherwise, so the two kinds are told apart by \<^verbatim>\<open>instanceof OllamaNetworkError\<close>.
\<close>

theorem post_all_attempts_fail:
  fixes env :: "string \<Rightarrow> 'req \<Rightarrow> nat \<Rightarrow> fetch_outcome"
  assumes "1 \<le> retryAttempts cfg"
    and "\<forall>k. 1 \<le> k \<and> k \<le> nat (retryAttempts cfg) \<longrightarrow>
           threw (fst (attemptOnce cfg (baseUrl cfg @ ''/'' @ endpoint) (env (baseUrl cfg @ ''/'' @ endpoint) data k)))"
  shows "filter (\<lambda>e. isFetch e \<or> isSleep e) (snd (post cfg env endpoint data)) =
           concat (replicate (nat (retryAttempts cfg) - 1)
                     [Fetch (baseUrl cfg @ ''/'' @ endpoint), Sleep (retryDelayMs cfg)])
           @ [Fetch (baseUrl cfg @ ''/'' @ endpoint)]
         \<and> (\<exists>error.
               fst (attemptOnce cfg (baseUrl cfg @ ''/'' @ endpoint)
                      (env (baseUrl cfg @ ''/'' @ endpoint) data (nat (retryAttempts cfg)))) = Some (Inl error)
             \<and> fst (post cfg env endpoint data) = Some (Inl (surfaced error))
             \<and> instanceofOllamaNetworkError (surfaced error) = (\<not> instanceofOllamaAPIError error))"
proof -
  let ?url = "baseUrl cfg @ ''/'' @ endpoint"
  let ?last = "fst (attemptOnce cfg ?url (env ?url data (nat (retryAttempts cfg))))"
  have n: "nat (retryAttempts cfg - 0) = Suc (nat (retryAttempts cfg) - 1)"
    using assms(1) by simp
  have k: "\<forall>k. nat 0 < k \<and> k \<le> nat (retryAttempts cfg) \<longrightarrow>
           threw (fst (attemptOnce cfg ?url (env ?url data k)))"
    using assms(2) by auto
  have main: "filter (\<lambda>e. isFetch e \<or> isSleep e) (snd (postLoop cfg (env ?url data) ?url 0)) =
           concat (replicate (nat (retryAttempts cfg) - 1) [Fetch ?url, Sleep (retryDelayMs cfg)]) @ [Fetch ?url]
         \<and> (\<exists>error. ?last = Some (Inl error)
                  \<and> fst (postLoop cfg (env ?url data) ?url 0) = Some (Inl (surfaced error)))"
    by (rule postLoop_all_fail[OF n _ k]) simp
  then obtain error where last: "?last = Some (Inl error)"
    and thrown: "fst (postLoop cfg (env ?url data) ?url 0) = Some (Inl (surfaced error))"
    by blast
  have s2: "instanceofOllamaNetworkError (surfaced error) = (\<not> instanceofOllamaAPIError error)"
    using attemptOnce_not_network[OF last] by (cases error) (simp_all add: surfaced_def)
  show ?thesis
    unfolding post_def using main last thrown s2 by simp
qed

theorem post_all_attempts_fail_witness:
  "1 \<le> retryAttempts cfg3
   \<and> filter (\<lambda>e. isFetch e \<or> isSleep e) (snd (post cfg3 env500 ''tags'' ())) =
     [Fetch ''http://localhost:11434/api/tags'', Sleep 1000,
      Fetch ''http://localhost:11434/api/tags'', Sleep 1000,
      Fetch ''http://localhost:11434/api/tags'']
   \<and> fst (post cfg3 env500 ''tags'' ()) =
      Some (Inl (OllamaAPIError ''API error: Internal server error'' (Some 500)))"
  using post_all_attempts_fail[of cfg3 "''tags''" env500 "()"]
  by (simp add: cfg3_def env500_def resp500_def attemptOnce_def surfaced_def eval_nat_numeral)

text \<open>
  C10, amended. With an attempt count N of at least 1 the throw after the loop is never
  reached: \<^verbatim>\<open>post\<close> ends inside an attempt \<open>k\<close> of the N, after \<open>k\<close> outbound calls
  with a pause between two consecutive ones, every attempt before \<open>k\<close> having failed.
  Either attempt \<open>k\<close> got a response with a success status whose parsed body is not an
  error payload, and \<^verbatim>\<open>post\<close> returns that body; or \<open>k\<close> is the last attempt, it failed,
  and \<^verbatim>\<open>post\<close> throws its error (wrapped in an \<^verbatim>\<open>OllamaNetworkError\<close> unless it is an
  \<^verbatim>\<open>OllamaAPIError\<close>); or attempt \<open>k\<close> got a response whose body read never settles,
  and \<^verbatim>\<open>post\<close> neither returns nor throws. With an attempt count of 0 or less it throws
  "Maximum retry attempts reached" and has made no outbound call, nor any other effect.
\<close>

theorem post_fallthrough:
  fixes env :: "string \<Rightarrow> 'req \<Rightarrow> nat \<Rightarrow> fetch_outcome"
  shows "(1 \<le> retryAttempts cfg \<longrightarrow>
            fst (post cfg env endpoint data) \<noteq> Some (Inl (OllamaAPIError ''Maximum retry attempts reached'' None))
          \<and> (\<exists>k. 1 \<le> k \<and> k \<le> nat (retryAttempts cfg)
               \<and> (\<forall>j. 1 \<le> j \<and> j < k \<longrightarrow>
                    threw (fst (attemptOnce cfg (baseUrl cfg @ ''/'' @ endpoint)
                                  (env (baseUrl cfg @ ''/'' @ endpoint) data j))))
               \<and> filter (\<lambda>e. isFetch e \<or> isSleep e) (snd (post cfg env endpoint data)) =
                   concat (replicate (k - 1) [Fetch (baseUrl cfg @ ''/'' @ endpoint), Sleep (retryDelayMs cfg)])
                   @ [Fetch (baseUrl cfg @ ''/'' @ endpoint)]
               \<and> ((\<exists>resp result.
                      env (baseUrl cfg @ ''/'' @ endpoint) data k = Resolves resp \<and> ok resp
                    \<and> bodyJson resp = Resolves result \<and> \<not> isErrorResponse result
                    \<and> fst (post cfg env endpoint data) = Some (Inr result))
                  \<or> (\<exists>error.
                      k = nat (retryAttempts cfg)
                    \<and> fst (attemptOnce cfg (baseUrl cfg @ ''/'' @ endpoint)
                             (env (baseUrl cfg @ ''/'' @ endpoint) data k)) = Some (Inl error)
                    \<and> fst (post cfg env endpoint data) = Some (Inl (surfaced error)))
                  \<or> (\<exists>resp.
                      env (baseUrl cfg @ ''/'' @ endpoint) data k = Resolves resp
                    \<and> (if ok resp then bodyJson resp = Hangs else bodyText resp = Hangs)
                    \<and> fst (post cfg env endpoint data) = None))))
       \<and> (retryAttempts cfg \<le> 0 \<longrightarrow>
            post cfg env endpoint data =
              (Some (Inl (OllamaAPIError ''Maximum retry attempts reached'' None)), []))"
proof (intro conjI impI)
  assume "retryAttempts cfg \<le> 0"
  then show "post cfg env endpoint data =
      (Some (Inl (OllamaAPIError ''Maximum retry attempts reached'' None)), [])"
    unfolding post_def by (subst postLoop.simps) simp
next
  let ?url = "baseUrl cfg @ ''/'' @ endpoint"
  assume n: "1 \<le> retryAttempts cfg"
  then have m: "nat (retryAttempts cfg - 0) = Suc (nat (retryAttempts cfg) - 1)" by simp
  from postLoop_outcome[OF m, where url = ?url and env = "env ?url data"]
  have "\<exists>k. 0 < k \<and> k \<le> nat (retryAttempts cfg)
           \<and> (\<forall>j. 0 < j \<and> j < k \<longrightarrow> threw (fst (attemptOnce cfg ?url (env ?url data j))))
           \<and> filter (\<lambda>e. isFetch e \<or> isSleep e) (snd (postLoop cfg (env ?url data) ?url 0)) =
               concat (replicate (k - Suc 0) [Fetch ?url, Sleep (retryDelayMs cfg)]) @ [Fetch ?url]
           \<and> (case fst (attemptOnce cfg ?url (env ?url data k)) of
                None \<Rightarrow> fst (postLoop cfg (env ?url data) ?url 0) = None
              | Some (Inr result) \<Rightarrow> fst (postLoop cfg (env ?url data) ?url 0) = Some (Inr result)
              | Some (Inl error) \<Rightarrow>
                  k = nat (retryAttempts cfg) \<and> fst (postLoop cfg (env ?url data) ?url 0) = Some (Inl (surfaced error)))"
    by simp
  then obtain k where k: "0 < k" "k \<le> nat (retryAttempts cfg)"
    and before: "\<forall>j. 0 < j \<and> j < k \<longrightarrow> threw (fst (attemptOnce cfg ?url (env ?url data j)))"
    and sched: "filter (\<lambda>e. isFetch e \<or> isSleep e) (snd (postLoop cfg (env ?url data) ?url 0)) =
               concat (replicate (k - Suc 0) [Fetch ?url, Sleep (retryDelayMs cfg)]) @ [Fetch ?url]"
    and res: "(case fst (attemptOnce cfg ?url (env ?url data k)) of
                None \<Rightarrow> fst (postLoop cfg (env ?url data) ?url 0) = None
              | Some (Inr result) \<Rightarrow> fst (postLoop cfg (env ?url data) ?url 0) = Some (Inr result)
              | Some (Inl error) \<Rightarrow>
                  k = nat (retryAttempts cfg) \<and> fst (postLoop cfg (env ?url data) ?url 0) = Some (Inl (surfaced error)))"
    by blast
  show "fst (post cfg env endpoint data) \<noteq> Some (Inl (OllamaAPIError ''Maximum retry attempts reached'' None))"
    unfolding post_def using res surfaced_not_fallthrough[of cfg ?url "env ?url data k"]
    by (cases "fst (attemptOnce cfg ?url (env ?url data k))" rule: threw.cases) auto
  have alt: "(\<exists>resp result.
                      env ?url data k = Resolves resp \<and> ok resp
                    \<and> bodyJson resp = Resolves result \<and> \<not> isErrorResponse result
                    \<and> fst (post cfg env endpoint data) = Some (Inr result))
                  \<or> (\<exists>error.
                      k = nat (retryAttempts cfg)
                    \<and> fst (attemptOnce cfg ?url (env ?url data k)) = Some (Inl error)
                    \<and> fst (post cfg env endpoint data) = Some (Inl (surfaced error)))
                  \<or> (\<exists>resp.
                      env ?url data k = Resolves resp
                    \<and> (if ok resp then bodyJson resp = Hangs else bodyText resp = Hangs)
                    \<and> fst (post cfg env endpoint data) = None)"
  proof (cases "fst (attemptOnce cfg ?url (env ?url data k))")
    case None
    then show ?thesis
      unfolding post_def using res attemptOnce_pending[of cfg ?url "env ?url data k"] by auto
  next
    case (Some x)
    show ?thesis
    proof (cases x)
      case (Inl error)
      then show ?thesis unfolding post_def using res Some by simp
    next
      case (Inr v)
      then show ?thesis
        unfolding post_def using res Some attemptOnce_returns[of cfg ?url "env ?url data k" v] by auto
    qed
  qed
  have k1: "1 \<le> k" using k(1) by simp
  have before1: "\<forall>j. 1 \<le> j \<and> j < k \<longrightarrow> threw (fst (attemptOnce cfg ?url (env ?url data j)))"
    using before by auto
  have sched1: "filter (\<lambda>e. isFetch e \<or> isSleep e) (snd (post cfg env endpoint data)) =
                   concat (replicate (k - 1) [Fetch ?url, Sleep (retryDelayMs cfg)]) @ [Fetch ?url]"
    unfolding post_def using sched by simp
  show "\<exists>k. 1 \<le> k \<and> k \<le> nat (retryAttempts cfg)
               \<and> (\<forall>j. 1 \<le> j \<and> j < k \<longrightarrow> threw (fst (attemptOnce cfg ?url (env ?url data j))))
               \<and> filter (\<lambda>e. isFetch e \<or> isSleep e) (snd (post cfg env endpoint data)) =
                   concat (replicate (k - 1) [Fetch ?url, Sleep (retryDelayMs cfg)]) @ [Fetch ?url]
               \<and> ((\<exists>resp result.
                      env ?url data k = Resolves resp \<and> ok resp
                    \<and> bodyJson resp = Resolves result \<and> \<not> isErrorResponse result
                    \<and> fst (post cfg env endpoint data) = Some (Inr result))
                  \<or> (\<exists>error.
                      k = nat (retryAttempts cfg)
                    \<and> fst (attemptOnce cfg ?url (env ?url data k)) = Some (Inl error)
                    \<and> fst (post cfg env endpoint data) = Some (Inl (surfaced error)))
                  \<or> (\<exists>resp.
                      env ?url data k = Resolves resp
                    \<and> (if ok resp then bodyJson resp = Hangs else bodyText resp = Hangs)
                    \<and> fst (post cfg env endpoint data) = None))"
    using k1 k(2) before1 sched1 alt by blast
qed

theorem post_fallthrough_witness:
  "1 \<le> retryAttempts cfg3
   \<and> fst (post cfg3 env500 ''tags'' ()) \<noteq> Some (Inl (OllamaAPIError ''Maximum retry attempts reached'' None))
   \<and> retryAttempts cfg0 \<le> 0
   \<and> post cfg0 env500 ''tags'' () = (Some (Inl (OllamaAPIError ''Maximum retry attempts reached'' None)), [])"
  using post_fallthrough[of cfg3 env500 "''tags''" "()"] post_fallthrough[of cfg0 env500 "''tags''" "()"]
  by (simp add: cfg3_def cfg0_def)

text \<open>
  C10, as the claim states it, fails: with an attempt count of at least 1, \<^verbatim>\<open>post\<close>
  need not return or throw. With the default count of three attempts and a response with
  a success status whose body never arrives, the first attempt clears the abort timer and
  then awaits \<^verbatim>\<open>response.json()\<close> for ever: \<^verbatim>\<open>post\<close> has neither returned a parsed
  response nor thrown, and no further attempt is made.
\<close>

theorem post_stalled_body_read:
  "retryAttempts cfg3 = 3
   \<and> post cfg3 envStalled ''tags'' () =
       (None, [SetAbortTimer 30000, Fetch ''http://localhost:11434/api/tags'', ClearAbortTimer])"
  unfolding post_def
  by (subst postLoop.simps) (simp add: cfg3_def envStalled_def respStalled_def attemptOnce_def)

text \<open>
  C8. A response with a success status whose body has the shape of an error payload makes
  the attempt fail with an \<^verbatim>\<open>OllamaAPIError\<close>, as a response with a non-success status
  does; \<^verbatim>\<open>post\<close> never returns an error payload as its result; and putting a non-success
  response in place of the error payload at any attempt changes neither the outbound
  calls and pauses of the call nor whether it fails, nor what it returns, nor whether it
  settles.
\<close>

theorem error_payload_is_failure:
  fixes env :: "string \<Rightarrow> 'req \<Rightarrow> nat \<Rightarrow> fetch_outcome"
  assumes "ok resp" and "bodyJson resp = Resolves payload" and "isErrorResponse payload"
    and "\<not> ok resp'" and "bodyText resp' = Resolves t"
    and "url = baseUrl cfg @ ''/'' @ endpoint"
    and "env url data j = Resolves resp"
  shows "(\<exists>err. member_of payload ''error'' = JStr err \<and>
            fst (attemptOnce cfg url (Resolves resp)) = Some (Inl (OllamaAPIError (''API returned error: '' @ err) None)))
    \<and> fst (attemptOnce cfg url (Resolves resp')) = Some (Inl (OllamaAPIError (''API error: '' @ t) (Some (status resp'))))
    \<and> (\<forall>result. fst (post cfg env endpoint data) = Some (Inr result) \<longrightarrow> \<not> isErrorResponse result)
    \<and> filter (\<lambda>e. isFetch e \<or> isSleep e) (snd (post cfg env endpoint data)) =
         filter (\<lambda>e. isFetch e \<or> isSleep e)
           (snd (post cfg (\<lambda>u d k. if k = j then Resolves resp' else env u d k) endpoint data))
    \<and> threw (fst (post cfg env endpoint data)) =
         threw (fst (post cfg (\<lambda>u d k. if k = j then Resolves resp' else env u d k) endpoint data))
    \<and> (\<forall>r. (fst (post cfg env endpoint data) = Some (Inr r)) =
            (fst (post cfg (\<lambda>u d k. if k = j then Resolves resp' else env u d k) endpoint data) = Some (Inr r)))
    \<and> (fst (post cfg env endpoint data) = None) =
         (fst (post cfg (\<lambda>u d k. if k = j then Resolves resp' else env u d k) endpoint data) = None)"
proof -
  obtain kvs where obj: "payload = JObj kvs"
    using assms(3) by (cases payload) (auto simp: isErrorResponse_def)
  then obtain err where err: "member_of payload ''error'' = JStr err"
    using assms(3) by (cases "member_of payload ''error''") (auto simp: isErrorResponse_def)
  have 1: "\<exists>err. member_of payload ''error'' = JStr err \<and>
            fst (attemptOnce cfg url (Resolves resp)) = Some (Inl (OllamaAPIError (''API returned error: '' @ err) None))"
    using assms(1,2,3) err by (simp add: attemptOnce_def)
  have 2: "fst (attemptOnce cfg url (Resolves resp')) = Some (Inl (OllamaAPIError (''API error: '' @ t) (Some (status resp'))))"
    using assms(4,5) by (simp add: attemptOnce_def)
  have 3: "\<forall>result. fst (post cfg env endpoint data) = Some (Inr result) \<longrightarrow> \<not> isErrorResponse result"
    unfolding post_def using postLoop_result[OF refl] by blast
  have cls: "\<forall>k. fst (attemptOnce cfg url (env url data k)) =
                 fst (attemptOnce cfg url (if k = j then Resolves resp' else env url data k))
             \<or> (threw (fst (attemptOnce cfg url (env url data k))) \<and>
                threw (fst (attemptOnce cfg url (if k = j then Resolves resp' else env url data k))))"
    using 1 2 assms(7) by auto
  note sc = postLoop_same_class[OF cls refl, of 0, unfolded assms(6)]
  have 4: "filter (\<lambda>e. isFetch e \<or> isSleep e) (snd (post cfg env endpoint data)) =
         filter (\<lambda>e. isFetch e \<or> isSleep e)
           (snd (post cfg (\<lambda>u d k. if k = j then Resolves resp' else env u d k) endpoint data))"
    unfolding post_def using sc by simp
  have 5: "threw (fst (post cfg env endpoint data)) =
         threw (fst (post cfg (\<lambda>u d k. if k = j then Resolves resp' else env u d k) endpoint data))"
    unfolding post_def using sc by simp
  have 6: "\<forall>r. (fst (post cfg env endpoint data) = Some (Inr r)) =
            (fst (post cfg (\<lambda>u d k. if k = j then Resolves resp' else env u d k) endpoint data) = Some (Inr r))"
    unfolding post_def using sc by simp
  have 7: "(fst (post cfg env endpoint data) = None) =
         (fst (post cfg (\<lambda>u d k. if k = j then Resolves resp' else env u d k) endpoint data) = None)"
    unfolding post_def using sc by simp
  show ?thesis using 1 2 3 4 5 6 7 by blast
qed

theorem error_payload_is_failure_witness:
  "ok respErrorPayload \<and> isErrorResponse (JObj [(''error'', JStr ''Something went wrong'')]) \<and> \<not> ok resp500
   \<and> fst (attemptOnce cfg3 ''http://localhost:11434/api/tags'' (Resolves respErrorPayload)) =
       Some (Inl (OllamaAPIError ''API returned error: Something went wrong'' None))
   \<and> fst (post cfg3 envErrorPayload ''tags'' ()) \<noteq> Some (Inr (JObj [(''error'', JStr ''Something went wrong'')]))
   \<and> filter (\<lambda>e. isFetch e \<or> isSleep e) (snd (post cfg3 envErrorPayload ''tags'' ())) =
       filter (\<lambda>e. isFetch e \<or> isSleep e)
         (snd (post cfg3 (\<lambda>u d k. if k = 2 then Resolves resp500 else envErrorPayload u d k) ''tags'' ()))"
  using error_payload_is_failure[of respErrorPayload "JObj [(''error'', JStr ''Something went wrong'')]"
          resp500 "''Internal server error''" "''http://localhost:11434/api/tags''" cfg3 "''tags''"
          envErrorPayload "()" 2]
  by (auto simp add: respErrorPayload_def resp500_def cfg3_def envErrorPayload_def isErrorResponse_def)

section \<open>The streaming ingester: \<^verbatim>\<open>stream\<close>\<close>



lemma indexOf_None: "(indexOf c xs = None) = (c \<notin> set xs)"
  by (induction xs) auto


lemma drainLines_no_newline:
  "indexOf 0x0A buffer = None \<Longrightarrow> drainLines parse cb buffer = (buffer, [])"
  by (subst drainLines.simps) simp




lemma splitOn_nonempty: "splitOn c xs \<noteq> []"
  by (induction xs) (auto split: list.splits)

lemma splitOn_no_sep: "indexOf c xs = None \<Longrightarrow> splitOn c xs = [xs]"
  by (induction xs) (auto split: if_splits)

lemma splitOn_at_sep:
  "indexOf c xs = Some i \<Longrightarrow> splitOn c xs = take i xs # splitOn c (drop (Suc i) xs)"
proof (induction xs arbitrary: i)
  case Nil
  then show ?case by simp
next
  case (Cons x xs)
  show ?case
  proof (cases "x = c")
    case True
    then show ?thesis using Cons.prems by simp
  next
    case False
    then obtain j where j: "indexOf c xs = Some j" "i = Suc j"
      using Cons.prems by auto
    show ?thesis
      using False j Cons.IH[OF j(1)] by simp
  qed
qed

lemma drainLines_splitOn:
  "drainLines parse cb buffer =
     (last (splitOn 0x0A buffer),
      concat (map (handleLine parse cb) (map trim16 (butlast (splitOn 0x0A buffer)))))"
proof (induction parse cb buffer rule: drainLines.induct)
  case (1 parse cb buffer)
  show ?case
  proof (cases "indexOf 0x0A buffer")
    case None
    then show ?thesis by (simp add: drainLines_no_newline splitOn_no_sep)
  next
    case (Some i)
    show ?thesis
      using "1.IH"[OF Some] Some splitOn_nonempty[of "0x0A" "drop (Suc i) buffer"]
      by (subst drainLines.simps) (simp add: splitOn_at_sep)
  qed
qed







text \<open>
  What \<^verbatim>\<open>onChunk\<close> receives from a body that is delivered in chunks and then ends: nothing
  when the reader's \<^verbatim>\<open>closed\<close> is truthy, and otherwise the records of the whole payload,
  line by line.
\<close>

lemma readLoop_closed: "readLoop parse cb True cancel d buffer rs = ([], Settled)"
  by (cases rs) simp_all

lemma readLoop_Chunk:
  assumes "decode d v = (d', decoded)" and "drainLines parse cb (buffer @ decoded) = (buffer', evs)"
  shows "readLoop parse cb False None d buffer (Chunk v # rs) =
           (case readLoop parse cb False None d' buffer' rs of (evs', st) \<Rightarrow> (evs @ evs', st))"
  using assms by simp


text \<open>
  When the reader's \<^verbatim>\<open>closed\<close> is truthy the read loop is not entered: the \<^verbatim>\<open>try\<close>
  block ends after the one HTTP call, and neither callback has been called.
\<close>

lemma stream_closed_reader:
  fixes env :: "string \<Rightarrow> 'req \<Rightarrow> fetch_outcome"
  assumes "env (baseUrl cfg @ ''/'' @ endpoint) data = Resolves resp"
    and "ok resp" and "body resp = Some rd" and "closed rd" and "cancel \<noteq> Some 0"
  shows "stream cfg parse env cancel endpoint data cb =
           ([Net (Fetch (baseUrl cfg @ ''/'' @ endpoint))], Settled)"
  using assms by (simp add: stream_def Let_def readLoop_closed)






lemma netEvents_append: "netEvents (xs @ ys) = netEvents xs @ netEvents ys"
  by (induction xs rule: netEvents.induct) auto

lemma doneCalls_append: "doneCalls (xs @ ys) = doneCalls xs + doneCalls ys"
  by (induction xs rule: doneCalls.induct) auto

lemma deliver_quiet:
  "filter (\<lambda>e. isFetch e \<or> isSleep e \<or> isTimer e) (netEvents (deliver parse cb label src)) = []"
  "doneCalls (deliver parse cb label src) = 0"
  by (auto simp: deliver_def split: option.splits)

lemma drainLines_quiet:
  "filter (\<lambda>e. isFetch e \<or> isSleep e \<or> isTimer e) (netEvents (snd (drainLines parse cb buffer))) = []
   \<and> doneCalls (snd (drainLines parse cb buffer)) = 0"
proof (induction parse cb buffer rule: drainLines.induct)
  case (1 parse cb buffer)
  show ?case
  proof (cases "indexOf 0x0A buffer")
    case None
    then show ?thesis by (simp add: drainLines_no_newline)
  next
    case (Some i)
    show ?thesis
      using "1.IH"[OF Some] Some
      by (subst (1 2) drainLines.simps)
         (simp add: split_beta netEvents_append doneCalls_append handleLine_def deliver_quiet)
  qed
qed

lemmas drainLines_no_net = drainLines_quiet[THEN conjunct1]
lemmas drainLines_no_done = drainLines_quiet[THEN conjunct2]

lemma catchBlock_quiet:
  "filter (\<lambda>e. isFetch e \<or> isSleep e \<or> isTimer e) (netEvents (fst (catchBlock cb aborted error))) = []"
  by (auto simp: catchBlock_def Let_def netEvents_append split: option.splits done_callback.splits)

lemma readLoop_quiet:
  "filter (\<lambda>e. isFetch e \<or> isSleep e \<or> isTimer e)
     (netEvents (fst (readLoop parse cb isClosed cancel d buffer rs))) = []"
proof (induction rs arbitrary: cancel d buffer)
  case Nil
  then show ?case by (simp add: catchBlock_quiet)
next
  case (Cons r rs)
  show ?case
  proof (cases r)
    case (Chunk v)
    then show ?thesis
      using Cons.IH
      by (auto simp: split_beta netEvents_append catchBlock_quiet drainLines_no_net)
  next
    case Done
    then show ?thesis
      by (auto simp: Let_def split_beta netEvents_append catchBlock_quiet deliver_quiet
               split: option.splits done_callback.splits)
  next
    case (ReadRejects m)
    then show ?thesis by (simp add: catchBlock_quiet)
  qed
qed

lemma catchBlock_done_once:
  "onDone cb = Some Returns \<Longrightarrow>
     doneCalls (fst (catchBlock cb aborted error)) = 1 \<and> snd (catchBlock cb aborted error) = Settled"
  by (auto simp: catchBlock_def Let_def doneCalls_append)

lemma readLoop_done_once:
  assumes "onDone cb = Some Returns"
    and "snd (readLoop parse cb False cancel d buffer rs) \<noteq> Pending"
  shows "doneCalls (fst (readLoop parse cb False cancel d buffer rs)) = 1"
  using assms(2)
proof (induction rs arbitrary: cancel d buffer)
  case Nil
  then show ?case using catchBlock_done_once[OF assms(1)] by (auto split: if_splits)
next
  case (Cons r rs)
  show ?case
  proof (cases "cancel = Some 0")
    case True
    then show ?thesis using catchBlock_done_once[OF assms(1)] by simp
  next
    case False
    show ?thesis
    proof (cases r)
      case (Chunk v)
      then show ?thesis
        using Cons False by (auto simp: split_beta doneCalls_append drainLines_no_done)
    next
      case Done
      then show ?thesis
        using False assms(1) by (auto simp: Let_def doneCalls_append deliver_quiet)
    next
      case (ReadRejects m)
      then show ?thesis using False catchBlock_done_once[OF assms(1)] by simp
    qed
  qed
qed

text \<open>
  With a terminal callback that returns, a session that has ended has called it once,
  unless the exchange reached the read loop with a reader whose \<^verbatim>\<open>closed\<close> is truthy:
  then it has not called it at all.
\<close>

lemma stream_onDone_count:
  fixes env :: "string \<Rightarrow> 'req \<Rightarrow> fetch_outcome"
  assumes "onDone cb = Some Returns"
    and "snd (stream cfg parse env cancel endpoint data cb) \<noteq> Pending"
  shows "doneCalls (fst (stream cfg parse env cancel endpoint data cb)) =
           (if cancel \<noteq> Some 0 \<and>
               (\<exists>resp rd. env (baseUrl cfg @ ''/'' @ endpoint) data = Resolves resp \<and> ok resp \<and>
                          body resp = Some rd \<and> closed rd)
            then 0 else 1)"
proof (cases "cancel = Some 0")
  case True
  then show ?thesis
    using catchBlock_done_once[OF assms(1)] by (simp add: stream_def Let_def split_beta)
next
  case nc: False
  show ?thesis
  proof (cases "env (baseUrl cfg @ ''/'' @ endpoint) data")
    case (Rejects m)
    then show ?thesis
      using nc catchBlock_done_once[OF assms(1)] by (simp add: stream_def Let_def split_beta)
  next
    case Hangs
    then show ?thesis
      using nc assms(2) catchBlock_done_once[OF assms(1)]
      by (auto simp: stream_def Let_def split_beta split: if_splits)
  next
    case (Resolves resp)
    show ?thesis
    proof (cases "ok resp")
      case False
      then show ?thesis
        using nc Resolves assms(2) catchBlock_done_once[OF assms(1)]
        by (auto simp: stream_def Let_def split_beta split: promise.splits if_splits)
    next
      case True
      show ?thesis
      proof (cases "body resp")
        case None
        then show ?thesis
          using nc Resolves True catchBlock_done_once[OF assms(1)]
          by (simp add: stream_def Let_def split_beta)
      next
        case (Some rd)
        show ?thesis
        proof (cases "closed rd")
          case True
          then show ?thesis
            using nc Resolves \<open>ok resp\<close> Some
            by (cases "reads rd") (simp_all add: stream_def Let_def split_beta)
        next
          case False
          have "snd (readLoop parse cb False (map_option (\<lambda>n. n - 1) cancel) newTextDecoder [] (reads rd)) \<noteq> Pending"
            using assms(2) nc Resolves \<open>ok resp\<close> Some False
            by (simp add: stream_def Let_def split_beta)
          from readLoop_done_once[OF assms(1) this] show ?thesis
            using nc Resolves \<open>ok resp\<close> Some False
            by (simp add: stream_def Let_def split_beta)
        qed
      qed
    qed
  qed
qed

text \<open>
  The \<^verbatim>\<open>catch\<close> block ends the session. The read loop is left pending only by a
  \<^verbatim>\<open>read()\<close> that never settles in a session that is never cancelled: after chunks
  only, with a reader whose \<^verbatim>\<open>closed\<close> is falsy.
\<close>

lemma catchBlock_not_pending: "snd (catchBlock cb aborted error) \<noteq> Pending"
  by (auto simp: catchBlock_def Let_def split: option.splits done_callback.splits)

lemma readLoop_pending:
  "(snd (readLoop parse cb isClosed cancel d buffer rs) = Pending) =
     (\<not> isClosed \<and> cancel = None \<and> list_all isChunk rs)"
proof (induction rs arbitrary: cancel d buffer)
  case Nil
  then show ?case by (simp add: catchBlock_not_pending)
next
  case (Cons r rs)
  show ?case
  proof (cases r)
    case (Chunk v)
    then show ?thesis
      using Cons.IH by (auto simp: split_beta catchBlock_not_pending)
  next
    case Done
    then show ?thesis
      by (auto simp: Let_def split_beta catchBlock_not_pending split: option.splits done_callback.splits)
  next
    case (ReadRejects m)
    then show ?thesis by (simp add: catchBlock_not_pending)
  qed
qed

lemma readLoop_settled:
  assumes "onDone cb = Some Returns"
    and "snd (readLoop parse cb isClosed cancel d buffer rs) \<noteq> Pending"
  shows "snd (readLoop parse cb isClosed cancel d buffer rs) = Settled"
  using assms(2)
proof (induction rs arbitrary: cancel d buffer)
  case Nil
  then show ?case using catchBlock_done_once[OF assms(1)] by (auto split: if_splits)
next
  case (Cons r rs)
  show ?case
  proof (cases r)
    case (Chunk v)
    then show ?thesis
      using Cons catchBlock_done_once[OF assms(1)] by (auto simp: split_beta)
  next
    case Done
    then show ?thesis
      using assms(1) catchBlock_done_once[OF assms(1)] by (auto simp: Let_def)
  next
    case (ReadRejects m)
    then show ?thesis using catchBlock_done_once[OF assms(1)] by simp
  qed
qed

lemma stream_pending:
  fixes env :: "string \<Rightarrow> 'req \<Rightarrow> fetch_outcome"
  shows "(snd (stream cfg parse env cancel endpoint data cb) = Pending) =
     (cancel = None \<and>
      (case env (baseUrl cfg @ ''/'' @ endpoint) data of
         Hangs \<Rightarrow> True
       | Rejects m \<Rightarrow> False
       | Resolves resp \<Rightarrow>
           (if \<not> ok resp then bodyText resp = Hangs
            else (case body resp of
                    None \<Rightarrow> False
                  | Some rd \<Rightarrow> \<not> closed rd \<and> list_all isChunk (reads rd)))))"
  by (auto simp: stream_def Let_def split_beta catchBlock_not_pending readLoop_pending
           split: promise.splits option.splits)

lemma stream_settled:
  fixes env :: "string \<Rightarrow> 'req \<Rightarrow> fetch_outcome"
  assumes "onDone cb = Some Returns"
    and "snd (stream cfg parse env cancel endpoint data cb) \<noteq> Pending"
  shows "snd (stream cfg parse env cancel endpoint data cb) = Settled"
  using assms(2) catchBlock_done_once[OF assms(1)] readLoop_settled[OF assms(1)]
  by (auto simp: stream_def Let_def split_beta split: promise.splits option.splits if_splits)

text \<open>
  C7, amended. A streaming call makes exactly one outbound HTTP call, arms no abort timer
  and never pauses for a retry, however the session goes. No timeout bounds any part of
  the exchange: the session is pending exactly when the caller never cancels it and a
  promise of the platform never settles, be it the connection, the text of an error
  response, or a \<^verbatim>\<open>read()\<close> after chunks only; in particular a connection that never
  settles leaves the session pending, and cancelling it ends the session through the
  terminal callback. Every failure ends the session: with a terminal callback that
  returns, a session that is not pending is settled and has called it once (unless the
  loop was never entered because the reader's \<^verbatim>\<open>closed\<close> is truthy, which is no failure);
  a rejected connection is logged and followed by the terminal callback, with no second
  call.
\<close>

theorem stream_single_exchange:
  fixes env :: "string \<Rightarrow> 'req \<Rightarrow> fetch_outcome"
  shows "filter (\<lambda>e. isFetch e \<or> isSleep e \<or> isTimer e)
           (netEvents (fst (stream cfg parse env cancel endpoint data cb))) =
           [Fetch (baseUrl cfg @ ''/'' @ endpoint)]
       \<and> stream cfg parse (\<lambda>u d. Hangs) None endpoint data cb =
           ([Net (Fetch (baseUrl cfg @ ''/'' @ endpoint))], Pending)
       \<and> (snd (stream cfg parse env cancel endpoint data cb) = Pending) =
           (cancel = None \<and>
            (case env (baseUrl cfg @ ''/'' @ endpoint) data of
               Hangs \<Rightarrow> True
             | Rejects m \<Rightarrow> False
             | Resolves resp \<Rightarrow>
                 (if \<not> ok resp then bodyText resp = Hangs
                  else (case body resp of
                          None \<Rightarrow> False
                        | Some rd \<Rightarrow> \<not> closed rd \<and> list_all isChunk (reads rd)))))
       \<and> (onDone cb = Some Returns \<and> snd (stream cfg parse env cancel endpoint data cb) \<noteq> Pending \<longrightarrow>
            snd (stream cfg parse env cancel endpoint data cb) = Settled
          \<and> doneCalls (fst (stream cfg parse env cancel endpoint data cb)) =
              (if cancel \<noteq> Some 0 \<and>
                  (\<exists>resp rd. env (baseUrl cfg @ ''/'' @ endpoint) data = Resolves resp \<and> ok resp \<and>
                             body resp = Some rd \<and> closed rd)
               then 0 else 1))
       \<and> (onDone cb = Some Returns \<and> cancel = None \<and>
            env (baseUrl cfg @ ''/'' @ endpoint) data = Rejects reason \<longrightarrow>
            stream cfg parse env cancel endpoint data cb =
              ([Net (Fetch (baseUrl cfg @ ''/'' @ endpoint)), Net (LogError ''Network error in stream:''),
                OnDone], Settled))
       \<and> (onDone cb = Some Returns \<and> cancel \<noteq> None \<and>
            env (baseUrl cfg @ ''/'' @ endpoint) data = Hangs \<longrightarrow>
            stream cfg parse env cancel endpoint data cb =
              ([Net (Fetch (baseUrl cfg @ ''/'' @ endpoint)), OnDone], Settled))"
proof -
  let ?url = "baseUrl cfg @ ''/'' @ endpoint"
  have 1: "filter (\<lambda>e. isFetch e \<or> isSleep e \<or> isTimer e)
           (netEvents (fst (stream cfg parse env cancel endpoint data cb))) = [Fetch ?url]"
    by (auto simp: stream_def Let_def split_beta catchBlock_quiet readLoop_quiet
             split: promise.splits option.splits)
  have 2: "stream cfg parse (\<lambda>u d. Hangs) None endpoint data cb = ([Net (Fetch ?url)], Pending)"
    by (simp add: stream_def)
  note 3 = stream_pending[of cfg parse env cancel endpoint data cb]
  have 4: "snd (stream cfg parse env cancel endpoint data cb) = Settled
          \<and> doneCalls (fst (stream cfg parse env cancel endpoint data cb)) =
              (if cancel \<noteq> Some 0 \<and>
                  (\<exists>resp rd. env ?url data = Resolves resp \<and> ok resp \<and> body resp = Some rd \<and> closed rd)
               then 0 else 1)"
    if "onDone cb = Some Returns \<and> snd (stream cfg parse env cancel endpoint data cb) \<noteq> Pending"
    using that stream_settled[of cb cfg parse env cancel endpoint data]
      stream_onDone_count[of cb cfg parse env cancel endpoint data] by blast
  have 5: "stream cfg parse env cancel endpoint data cb =
              ([Net (Fetch ?url), Net (LogError ''Network error in stream:''), OnDone], Settled)"
    if "onDone cb = Some Returns \<and> cancel = None \<and> env ?url data = Rejects reason"
    using that by (simp add: stream_def catchBlock_def)
  have 6: "stream cfg parse env cancel endpoint data cb = ([Net (Fetch ?url), OnDone], Settled)"
    if "onDone cb = Some Returns \<and> cancel \<noteq> None \<and> env ?url data = Hangs"
    using that by (auto simp: stream_def catchBlock_def Let_def)
  show ?thesis using 1 2 3 4 5 6 by blast
qed

theorem stream_single_exchange_witness:
  "stream cfg3 acceptObjects (\<lambda>u d. Rejects ''fetch failed'') None ''chat'' () quiet =
     ([Net (Fetch ''http://localhost:11434/api/chat''), Net (LogError ''Network error in stream:''),
       OnDone], Settled)
   \<and> stream cfg3 acceptObjects (\<lambda>u d. Hangs) (Some 2) ''chat'' () quiet =
     ([Net (Fetch ''http://localhost:11434/api/chat''), OnDone], Settled)
   \<and> filter (\<lambda>e. isFetch e \<or> isSleep e \<or> isTimer e)
     (netEvents (fst (stream cfg3 acceptObjects (\<lambda>u d. Rejects ''fetch failed'') None ''chat'' () quiet))) =
     [Fetch ''http://localhost:11434/api/chat'']
   \<and> doneCalls (fst (stream cfg3 acceptObjects (\<lambda>u d. Rejects ''fetch failed'') None ''chat'' () quiet)) = 1"
  using stream_single_exchange[of cfg3 acceptObjects "\<lambda>u d. Rejects ''fetch failed''" None "''chat''" "()" quiet
          "''fetch failed''"]
        stream_single_exchange[of cfg3 acceptObjects "\<lambda>u d. Hangs" "Some 2" "''chat''" "()" quiet]
  by (simp add: cfg3_def quiet_def)

text \<open>
  C7, as the claim states it, fails: the timeout does not bound the initial connection of
  a streaming call. With the default configuration and a connection that never settles,
  \<^verbatim>\<open>stream\<close> has made its HTTP call and waits for ever, where one attempt of \<^verbatim>\<open>post\<close>
  arms the 30000 ms timer and ends with the abort error.
\<close>

theorem stream_connection_unbounded:
  "stream cfg3 acceptObjects (\<lambda>u d. Hangs) None ''chat'' () quiet =
     ([Net (Fetch ''http://localhost:11434/api/chat'')], Pending)
   \<and> attemptOnce cfg3 ''http://localhost:11434/api/chat'' Hangs =
     (Some (Inl (OtherError ''This operation was aborted'')),
      [SetAbortTimer 30000, Fetch ''http://localhost:11434/api/chat''])"
  by (simp add: stream_def attemptOnce_def cfg3_def)

text \<open>
  The repository's kind of reader, with \<^verbatim>\<open>closed: false\<close>, on a body of two well-formed
  lines around a malformed one: both records are delivered, the malformed line is logged,
  and the terminal callback is called once.
\<close>

lemma open_reader_example:
  "stream cfg3 acceptObjects (\<lambda>u d. Resolves (respStream\<lparr>body := Some openReader\<rparr>)) None ''generate'' () quiet =
     ([Net (Fetch ''http://localhost:11434/api/generate''),
       OnChunk [0x7B, 0x7D], Net (LogError ''Error parsing JSON:''), OnChunk [0x7B, 0x7D], OnDone], Settled)"
proof -
  have d: "decode newTextDecoder [0x7B, 0x7D, 0x0A, 0x6F, 0x6F, 0x70, 0x73, 0x0A, 0x7B, 0x7D, 0x0A] =
        (newTextDecoder\<lparr>bomSeen := True\<rparr>, [0x7B, 0x7D, 0x0A, 0x6F, 0x6F, 0x70, 0x73, 0x0A, 0x7B, 0x7D, 0x0A])"
    by (simp add: newTextDecoder_def decodeByte_def leadByte_def resetSequence_def codeUnits_def)
  have l: "drainLines acceptObjects quiet ([] @ [0x7B, 0x7D, 0x0A, 0x6F, 0x6F, 0x70, 0x73, 0x0A, 0x7B, 0x7D, 0x0A]) =
        ([], [OnChunk [0x7B, 0x7D], Net (LogError ''Error parsing JSON:''), OnChunk [0x7B, 0x7D]])"
    by (simp add: drainLines_splitOn handleLine_def deliver_def trim16_def trimBy_def isWhiteSpace16_def
          acceptObjects_def quiet_def)
  have e: "readLoop acceptObjects quiet False None (newTextDecoder\<lparr>bomSeen := True\<rparr>) [] [Done] =
        ([OnDone], Settled)"
    by (simp add: trim16_def trimBy_def quiet_def)
  have r: "readLoop acceptObjects quiet False None newTextDecoder []
             [Chunk [0x7B, 0x7D, 0x0A, 0x6F, 0x6F, 0x70, 0x73, 0x0A, 0x7B, 0x7D, 0x0A], Done] =
        ([OnChunk [0x7B, 0x7D], Net (LogError ''Error parsing JSON:''), OnChunk [0x7B, 0x7D], OnDone], Settled)"
    unfolding readLoop_Chunk[OF d l] e by simp
  show ?thesis
    by (simp add: stream_def cfg3_def respStream_def openReader_def closedReader_def r del: readLoop.simps)
qed

text \<open>
  C3 at a reader of the Streams API, whose \<^verbatim>\<open>closed\<close> is a promise and so truthy: the
  response arrives, the loop \<^verbatim>\<open>while (!reader.closed)\<close> is not entered, and the session
  has ended without a call of \<^verbatim>\<open>onDone\<close>.
\<close>

theorem stream_closed_reader_no_onDone:
  "stream cfg3 acceptObjects (\<lambda>u d. Resolves (respStream\<lparr>body := Some closedReader\<rparr>)) None ''generate'' () quiet =
     ([Net (Fetch ''http://localhost:11434/api/generate'')], Settled)
   \<and> doneCalls (fst (stream cfg3 acceptObjects (\<lambda>u d. Resolves (respStream\<lparr>body := Some closedReader\<rparr>))
                       None ''generate'' () quiet)) = 0"
  by (simp add: stream_def cfg3_def respStream_def closedReader_def)

text \<open>
  C5 at a reader of the Streams API, on the same body: no record is delivered, where the
  claim has the two well-formed lines delivered.
\<close>

theorem stream_closed_reader_no_records:
  "records (fst (stream cfg3 acceptObjects (\<lambda>u d. Resolves (respStream\<lparr>body := Some closedReader\<rparr>))
                   None ''generate'' () quiet)) = []
   \<and> spec_records acceptObjects [0x7B, 0x7D, 0x0A, 0x6F, 0x6F, 0x70, 0x73, 0x0A, 0x7B, 0x7D, 0x0A] =
       [[0x7B, 0x7D], [0x7B, 0x7D]]"
proof -
  have d: "snd (decode newTextDecoder [0x7B, 0x7D, 0x0A, 0x6F, 0x6F, 0x70, 0x73, 0x0A, 0x7B, 0x7D, 0x0A]) =
        [0x7B, 0x7D, 0x0A, 0x6F, 0x6F, 0x70, 0x73, 0x0A, 0x7B, 0x7D, 0x0A]"
    by (simp add: newTextDecoder_def decodeByte_def leadByte_def resetSequence_def codeUnits_def)
  have s: "splitOn 0x0A [0x7B, 0x7D, 0x0A, 0x6F, 0x6F, 0x70, 0x73, 0x0A, 0x7B, 0x7D, 0x0A :: 16 word] =
        [[0x7B, 0x7D], [0x6F, 0x6F, 0x70, 0x73], [0x7B, 0x7D], []]"
    by simp
  have sr: "spec_records acceptObjects [0x7B, 0x7D, 0x0A, 0x6F, 0x6F, 0x70, 0x73, 0x0A, 0x7B, 0x7D, 0x0A] =
       [[0x7B, 0x7D], [0x7B, 0x7D]]"
    unfolding spec_records_def d s
    by (simp add: spec_lineRecord_def spec_residueRecord_def trim16_def trimBy_def
          isWhiteSpace16_def acceptObjects_def)
  have c: "records (fst (stream cfg3 acceptObjects (\<lambda>u d. Resolves (respStream\<lparr>body := Some closedReader\<rparr>))
                   None ''generate'' () quiet)) = []"
    by (simp add: stream_def cfg3_def respStream_def closedReader_def)
  show ?thesis using c sr by simp
qed

section \<open>The AI service: preprocessing, extraction and \<^verbatim>\<open>query\<close>\<close>

text \<open>
  Trimming takes white space, and nothing else, off both ends, and leaves none at either
  end.
\<close>

lemma trimBy_decompose:
  "\<exists>pre post. s = pre @ trimBy ws s @ post \<and> list_all ws pre \<and> list_all ws post"
proof -
  let ?t = "dropWhile ws s"
  have 1: "s = takeWhile ws s @ ?t" by simp
  have 2: "?t = trimBy ws s @ rev (takeWhile ws (rev ?t))"
  proof -
    have "rev ?t = takeWhile ws (rev ?t) @ dropWhile ws (rev ?t)" by simp
    then have "rev (rev ?t) = rev (dropWhile ws (rev ?t)) @ rev (takeWhile ws (rev ?t))"
      by (metis rev_append)
    then show ?thesis by (simp add: trimBy_def)
  qed
  have 3: "list_all ws (takeWhile ws s)"
    by (auto simp: list_all_iff dest: set_takeWhileD)
  have "\<forall>x\<in>set (takeWhile ws (rev ?t)). ws x"
    by (meson set_takeWhileD)
  then have 4: "list_all ws (rev (takeWhile ws (rev ?t)))"
    by (simp only: list_all_iff set_rev)
  show ?thesis using 1 2 3 4 by (metis append.assoc)
qed

lemma trimBy_ends:
  "trimBy ws s = [] \<or> (\<not> ws (hd (trimBy ws s)) \<and> \<not> ws (last (trimBy ws s)))"
proof (cases "trimBy ws s = []")
  case True
  then show ?thesis by simp
next
  case False
  let ?t = "dropWhile ws s"
  let ?u = "dropWhile ws (rev ?t)"
  have u: "?u \<noteq> []" using False by (simp add: trimBy_def)
  then have l: "\<not> ws (hd ?u)" by (rule hd_dropWhile)
  have "last (trimBy ws s) = hd ?u" using u by (simp add: trimBy_def last_rev)
  then have a: "\<not> ws (last (trimBy ws s))" using l by simp
  have t: "?t \<noteq> []"
  proof
    assume e: "?t = []"
    have "?u = []" unfolding e by (simp only: rev.simps dropWhile.simps)
    with u show False by simp
  qed
  then have h: "\<not> ws (hd ?t)" by (rule hd_dropWhile)
  have "rev ?t = takeWhile ws (rev ?t) @ ?u" by simp
  then have "?t = rev ?u @ rev (takeWhile ws (rev ?t))" by (metis rev_append rev_rev_ident)
  then have "hd ?t = hd (rev ?u)" using u by (metis hd_append2 rev_is_Nil_conv)
  then have "\<not> ws (hd (trimBy ws s))" using h by (simp add: trimBy_def)
  then show ?thesis using a by simp
qed

subsection \<open>Preprocessing\<close>

lemma preprocessQuery_cases:
  "preprocessQuery q =
     (if isBareDomain (trim q)
      then (if hasNavigationVerb (trim q) then ''https://'' @ trim q
            else ''Navigate to https://'' @ trim q)
      else (if startsWith (trim q) ''http'' \<and> \<not> hasNavigationVerb (trim q)
            then ''Navigate to '' @ trim q else trim q))"
  by (simp add: preprocessQuery_def Let_def hasNavigationVerb_def toLowerCase_def toLowerChar_def
                startsWith_def)

text \<open>
  C9, as the claim states it, fails in its last part: the input \<^verbatim>\<open>navigate.com\<close> contains
  a navigation verb, has no white space to trim, and is rewritten all the same.
\<close>

theorem preprocessQuery_verb_counterexample:
  "hasNavigationVerb ''navigate.com''
   \<and> trim ''navigate.com'' = ''navigate.com''
   \<and> preprocessQuery ''navigate.com'' = ''https://navigate.com''"
  by (simp add: preprocessQuery_def trim_def trimBy_def isWhiteSpace_def isBareDomain_def isWordOrHyphen_def
        startsWith_def toLowerCase_def toLowerChar_def hasNavigationVerb_def Let_def)

text \<open>
  C9, as the code has it. The result of \<^verbatim>\<open>preprocessQuery\<close> is the input without its
  leading and trailing white space, as it is or behind one of the prefixes
  \<^verbatim>\<open>https://\<close>, \<^verbatim>\<open>Navigate to\<close> and \<^verbatim>\<open>Navigate to https://\<close>; the input
  \<^verbatim>\<open>example.com\<close> gives \<^verbatim>\<open>Navigate to https://example.com\<close>; and an input that contains
  a navigation verb is never given the \<^verbatim>\<open>Navigate to\<close> prefix: it is left as it is apart
  from the trimming, unless it is a bare domain, which gets the scheme \<^verbatim>\<open>https://\<close>.
\<close>

theorem preprocessQuery_normalises:
  "(preprocessQuery q = trim q \<or> preprocessQuery q = ''https://'' @ trim q \<or>
    preprocessQuery q = ''Navigate to '' @ trim q \<or> preprocessQuery q = ''Navigate to https://'' @ trim q)
   \<and> (\<exists>pre post. q = pre @ trim q @ post \<and> list_all isWhiteSpace pre \<and> list_all isWhiteSpace post)
   \<and> (trim q = [] \<or> (\<not> isWhiteSpace (hd (trim q)) \<and> \<not> isWhiteSpace (last (trim q))))
   \<and> preprocessQuery ''example.com'' = ''Navigate to https://example.com''
   \<and> (hasNavigationVerb (trim q) \<longrightarrow>
         preprocessQuery q = (if isBareDomain (trim q) then ''https://'' @ trim q else trim q))"
proof -
  have 1: "preprocessQuery q = trim q \<or> preprocessQuery q = ''https://'' @ trim q \<or>
    preprocessQuery q = ''Navigate to '' @ trim q \<or> preprocessQuery q = ''Navigate to https://'' @ trim q"
    by (simp add: preprocessQuery_cases)
  have 2: "\<exists>pre post. q = pre @ trim q @ post \<and> list_all isWhiteSpace pre \<and> list_all isWhiteSpace post"
    unfolding trim_def by (rule trimBy_decompose)
  have 3: "trim q = [] \<or> (\<not> isWhiteSpace (hd (trim q)) \<and> \<not> isWhiteSpace (last (trim q)))"
    unfolding trim_def by (rule trimBy_ends)
  have 4: "preprocessQuery ''example.com'' = ''Navigate to https://example.com''"
    by (simp add: preprocessQuery_def trim_def trimBy_def isWhiteSpace_def isBareDomain_def isWordOrHyphen_def
        startsWith_def toLowerCase_def toLowerChar_def Let_def)
  have 5: "hasNavigationVerb (trim q) \<longrightarrow>
         preprocessQuery q = (if isBareDomain (trim q) then ''https://'' @ trim q else trim q)"
    by (simp add: preprocessQuery_cases)
  show ?thesis using 1 2 3 4 5 by blast
qed

theorem preprocessQuery_normalises_witness:
  "hasNavigationVerb (trim ''  Go to example.com '')
   \<and> preprocessQuery ''  Go to example.com '' = ''Go to example.com''"
proof -
  have t: "trim ''  Go to example.com '' = ''Go to example.com''"
    by (simp add: trim_def trimBy_def isWhiteSpace_def)
  have l: "toLowerCase ''Go to example.com'' = ''go to example.com''"
    by code_simp
  have v: "hasNavigationVerb ''Go to example.com''"
    unfolding hasNavigationVerb_def l by (simp add: startsWith_def)
  have b: "\<not> isBareDomain ''Go to example.com''"
    by (simp add: isBareDomain_def isWordOrHyphen_def)
  show ?thesis
    using preprocessQuery_normalises[of "''  Go to example.com ''"] v b unfolding t by simp
qed

subsection \<open>Extraction\<close>

lemma dropWhile_self: "xs \<noteq> [] \<Longrightarrow> \<not> P (hd xs) \<Longrightarrow> dropWhile P xs = xs"
  by (cases xs) simp_all

lemma matchFenceAt_group:
  assumes "matchFenceAt s = Some (m, g)"
  shows "g \<noteq> None"
proof (cases "untilFence (drop 7 s)")
  case None
  then have "matchFenceAt s = None" by (simp add: matchFenceAt_def)
  with assms show ?thesis by simp
next
  case (Some a)
  then have "matchFenceAt s = None \<or> matchFenceAt s = Some (''```json'' @ a @ ''```'', Some a)"
    by (simp add: matchFenceAt_def)
  with assms show ?thesis by auto
qed

lemma matchBraceAt_Some:
  "matchBraceAt s = Some (m, g) \<Longrightarrow>
     g = None \<and> hd s = CHR ''{'' \<and> s \<noteq> [] \<and> CHR ''}'' \<in> set (tl s) \<and>
     m = rev (dropWhile (\<lambda>x. x \<noteq> CHR ''}'') (rev s))"
  by (auto simp: matchBraceAt_def split: list.splits if_splits)

lemma regexMatch_brace_closing:
  "regexMatch s = Some (m, None) \<Longrightarrow> CHR ''}'' \<in> set s"
proof (induction s)
  case Nil
  then show ?case by simp
next
  case (Cons c cs)
  show ?case
  proof (cases "matchFenceAt (c # cs)")
    case (Some r)
    then show ?thesis using Cons.prems matchFenceAt_group[of "c # cs" m None] by simp
  next
    case None
    show ?thesis
    proof (cases "matchBraceAt (c # cs)")
      case (Some r)
      then show ?thesis
        using Cons.prems None matchBraceAt_Some[of "c # cs" "fst r" "snd r"] by auto
    next
      case nb: None
      then show ?thesis using Cons None by simp
    qed
  qed
qed

lemma regexMatch_brace_span:
  "regexMatch s = Some (m, None) \<Longrightarrow>
     m = rev (dropWhile (\<lambda>x. x \<noteq> CHR ''}'') (rev (dropWhile (\<lambda>x. x \<noteq> CHR ''{'') s)))
     \<and> dropWhile (\<lambda>x. x \<noteq> CHR ''{'') s \<noteq> []
     \<and> CHR ''}'' \<in> set (tl (dropWhile (\<lambda>x. x \<noteq> CHR ''{'') s))"
proof (induction s)
  case Nil
  then show ?case by simp
next
  case (Cons c cs)
  show ?case
  proof (cases "matchFenceAt (c # cs)")
    case (Some r)
    then show ?thesis using Cons.prems matchFenceAt_group[of "c # cs" m None] by simp
  next
    case None
    show ?thesis
    proof (cases "matchBraceAt (c # cs)")
      case (Some r)
      then have "r = (m, None)" using Cons.prems None by simp
      then show ?thesis
        using matchBraceAt_Some[of "c # cs" m None] Some by auto
    next
      case nb: None
      then have rest: "regexMatch cs = Some (m, None)" using Cons.prems None by simp
      have "c \<noteq> CHR ''{''"
        using nb regexMatch_brace_closing[OF rest] by (auto simp: matchBraceAt_def)
      then show ?thesis using Cons.IH[OF rest] by simp
    qed
  qed
qed

lemma trim_brace_span:
  assumes "t \<noteq> []" "hd t = CHR ''{''" "CHR ''}'' \<in> set (tl t)"
  shows "trim (rev (dropWhile (\<lambda>x. x \<noteq> CHR ''}'') (rev t))) = rev (dropWhile (\<lambda>x. x \<noteq> CHR ''}'') (rev t))"
proof -
  let ?r = "dropWhile (\<lambda>x. x \<noteq> CHR ''}'') (rev t)"
  obtain cs where t: "t = CHR ''{'' # cs" using assms(1,2) by (cases t) auto
  have cl: "CHR ''}'' \<in> set cs" using assms(3) t by simp
  then have ne0: "dropWhile (\<lambda>x. x \<noteq> CHR ''}'') (rev cs) \<noteq> []" by auto
  have r: "?r = dropWhile (\<lambda>x. x \<noteq> CHR ''}'') (rev cs) @ [CHR ''{'']"
    using cl by (simp add: t dropWhile_append1)
  have ne: "?r \<noteq> []" using r by simp
  have hr: "hd ?r = CHR ''}''" using hd_dropWhile[OF ne] by simp
  have lr: "last ?r = CHR ''{''" using r by simp
  have a: "dropWhile isWhiteSpace (rev ?r) = rev ?r"
    using ne lr by (intro dropWhile_self) (simp_all add: hd_rev isWhiteSpace_def)
  have b: "dropWhile isWhiteSpace ?r = ?r"
    using ne hr by (intro dropWhile_self) (simp_all add: isWhiteSpace_def)
  show ?thesis
    unfolding trim_def trimBy_def a rev_rev_ident b ..
qed

text \<open>
  C1, as the claim states it, fails: on the text \<^verbatim>\<open>{} {}\<close> the first top-level span is
  \<^verbatim>\<open>{}\<close>, which parses, and the extractor hands the whole text to the parser and
  returns \<^verbatim>\<open>undefined\<close>. The same on a payload whose string literal holds a closing
  brace, followed by a second object.
\<close>

theorem extract_brace_span_counterexample:
  \<open>jsonStr ''{} {}'' = Some ''{} {}''
   \<and> spec_firstTopLevelSpan ''{} {}'' = Some ''{}''
   \<and> parseEmptyObject ''{}'' = Some (JObj [])
   \<and> extractStructuredData parseEmptyObject (JStr ''{} {}'') = JUndefined
   \<and> jsonStr ''{"a":"}"} {}'' = Some ''{"a":"}"} {}''
   \<and> spec_firstTopLevelSpan ''{"a":"}"} {}'' = Some ''{"a":"}"}''\<close>
  by (simp add: jsonStr_def matchFenceAt_def matchBraceAt_def trim_def trimBy_def isWhiteSpace_def
        spec_firstTopLevelSpan_def extractStructuredData_def parseEmptyObject_def)

text \<open>
  C1, as the code has it. When the extractor falls back to the brace alternative (the
  match has no group), the span it selects runs from the first opening brace of the text
  to the last closing brace of the text, whatever lies between them; that span, which
  trimming leaves as it is, is what is parsed, and a span that does not parse gives
  \<^verbatim>\<open>undefined\<close>.
\<close>

theorem extract_brace_span_greedy:
  assumes "regexMatch response = Some (m, None)"
  shows "m = rev (dropWhile (\<lambda>x. x \<noteq> CHR ''}'') (rev (dropWhile (\<lambda>x. x \<noteq> CHR ''{'') response)))
       \<and> jsonStr response = Some m
       \<and> extractStructuredData parse (JStr response) = (case parse m of None \<Rightarrow> JUndefined | Some v \<Rightarrow> v)"
proof -
  note sp = regexMatch_brace_span[OF assms]
  let ?t = "dropWhile (\<lambda>x. x \<noteq> CHR ''{'') response"
  have h: "hd ?t = CHR ''{''" using sp hd_dropWhile[of "\<lambda>x. x \<noteq> CHR ''{''" response] by simp
  have tm: "trim m = m"
    using trim_brace_span[of ?t] sp h by simp
  have js: "jsonStr response = Some m"
    using assms tm by (simp add: jsonStr_def)
  show ?thesis using sp js by (simp add: extractStructuredData_def)
qed

theorem extract_brace_span_greedy_witness:
  "regexMatch ''{} {}'' = Some (''{} {}'', None)
   \<and> jsonStr ''{} {}'' = Some ''{} {}''
   \<and> extractStructuredData parseEmptyObject (JStr ''{} {}'') = JUndefined"
proof -
  have r: "regexMatch ''{} {}'' = Some (''{} {}'', None)"
    by (simp add: matchFenceAt_def matchBraceAt_def)
  have p: "parseEmptyObject ''{} {}'' = None" by (simp add: parseEmptyObject_def)
  show ?thesis
    using extract_brace_span_greedy[OF r, of parseEmptyObject] r p by simp
qed

subsection \<open>The query\<close>

text \<open>Whatever \<^verbatim>\<open>post\<close> throws is an \<^verbatim>\<open>OllamaAPIError\<close>, the network kind included.\<close>

lemma post_throws_api:
  fixes env :: "string \<Rightarrow> 'req \<Rightarrow> nat \<Rightarrow> fetch_outcome"
  assumes "fst (post cfg env endpoint data) = Some (Inl e)"
  shows "instanceofOllamaAPIError e"
proof (cases "retryAttempts cfg \<le> 0")
  case True
  then show ?thesis
    using assms unfolding post_def by (subst (asm) postLoop.simps) auto
next
  case False
  let ?url = "baseUrl cfg @ ''/'' @ endpoint"
  from False have m: "nat (retryAttempts cfg - 0) = Suc (nat (retryAttempts cfg) - 1)" by simp
  from postLoop_outcome[OF m, where url = ?url and env = "env ?url data"]
  obtain k where res: "(case fst (attemptOnce cfg ?url (env ?url data k)) of
                None \<Rightarrow> fst (postLoop cfg (env ?url data) ?url 0) = None
              | Some (Inr result) \<Rightarrow> fst (postLoop cfg (env ?url data) ?url 0) = Some (Inr result)
              | Some (Inl error) \<Rightarrow>
                  k = nat (retryAttempts cfg) \<and> fst (postLoop cfg (env ?url data) ?url 0) = Some (Inl (surfaced error)))"
    by auto
  show ?thesis
    using res assms unfolding post_def
    by (auto simp: surfaced_def split: option.splits sum.splits if_splits)
qed

text \<open>What the property reads and the tool-call extraction throw is a plain type error.\<close>

lemma getProperty_throws_other:
  "getProperty v k = Inl e \<Longrightarrow> \<not> instanceofOllamaAPIError e \<and> \<not> instanceofOllamaNetworkError e"
  by (auto simp: getProperty_def split: jsval.splits)

lemma mapActions_throws_other:
  "mapActions actions = Inl e \<Longrightarrow> \<not> instanceofOllamaAPIError e \<and> \<not> instanceofOllamaNetworkError e"
proof (induction actions)
  case Nil
  then show ?case by simp
next
  case (Cons action rest)
  then show ?case
    using getProperty_throws_other[of action "''action''" e]
          getProperty_throws_other[of action "''parameters''" e]
    by (auto split: sum.splits)
qed

lemma extractToolCalls_throws_other:
  "extractToolCalls v = Inl e \<Longrightarrow> \<not> instanceofOllamaAPIError e \<and> \<not> instanceofOllamaNetworkError e"
  using mapActions_throws_other[of _ e]
  by (auto simp: extractToolCalls_def inOperator_def split: if_splits sum.splits jsval.splits)

text \<open>
  C6, amended. \<^verbatim>\<open>query\<close> never throws, and it returns a result exactly when the call
  of the executor settles: it stays pending when that call does (a response whose body
  read never settles). When the executor fails, the result has the text "I encountered
  an error communicating with my AI backend." and the message of the executor's error in
  its \<^verbatim>\<open>error\<close> field. When the executor returns a reply, a type error thrown while
  the reply is read gives the text "I encountered an unexpected error." and the message
  of the error; otherwise the result has no \<^verbatim>\<open>error\<close> field and its \<^verbatim>\<open>text\<close> is
  \<^verbatim>\<open>response.message.content\<close> as it was received, a string or not, with what the
  extractor finds in it.
\<close>

theorem query_never_raises:
  "(\<forall>e. query svc parse env q \<noteq> Some (Inl e))
   \<and> (query svc parse env q = None) = (fst (chat (client svc) env (queryParams svc q)) = None)
   \<and> (\<forall>e. fst (chat (client svc) env (queryParams svc q)) = Some (Inl e) \<longrightarrow>
          query svc parse env q =
            Some (Inr \<lparr>text' = JStr ''I encountered an error communicating with my AI backend.'',
                       structuredOutput = JUndefined, toolCalls = None, error' = Some (message e)\<rparr>))
   \<and> (\<forall>response. fst (chat (client svc) env (queryParams svc q)) = Some (Inr response) \<longrightarrow>
          query svc parse env q =
            Some (Inr
              (case getProperty response ''message'' of
                 Inl e \<Rightarrow>
                   \<lparr>text' = JStr ''I encountered an unexpected error.'',
                    structuredOutput = JUndefined, toolCalls = None, error' = Some (message e)\<rparr>
               | Inr msg \<Rightarrow>
                   (case getProperty msg ''content'' of
                      Inl e \<Rightarrow>
                        \<lparr>text' = JStr ''I encountered an unexpected error.'',
                         structuredOutput = JUndefined, toolCalls = None, error' = Some (message e)\<rparr>
                    | Inr responseText \<Rightarrow>
                        (case (if truthy (extractStructuredData parse responseText)
                               then extractToolCalls (extractStructuredData parse responseText)
                               else Inr None) of
                           Inl e \<Rightarrow>
                             \<lparr>text' = JStr ''I encountered an unexpected error.'',
                              structuredOutput = JUndefined, toolCalls = None, error' = Some (message e)\<rparr>
                         | Inr calls \<Rightarrow>
                             \<lparr>text' = responseText,
                              structuredOutput = extractStructuredData parse responseText,
                              toolCalls = calls, error' = None\<rparr>)))))"
proof -
  let ?chat = "fst (chat (client svc) env (queryParams svc q))"
  have 1: "\<forall>e. query svc parse env q \<noteq> Some (Inl e)"
    by (simp add: query_def split: option.splits sum.splits)
  have 2: "(query svc parse env q = None) = (?chat = None)"
    by (simp add: query_def queryTry_def split: option.splits sum.splits)
  have 3: "query svc parse env q =
            Some (Inr \<lparr>text' = JStr ''I encountered an error communicating with my AI backend.'',
                       structuredOutput = JUndefined, toolCalls = None, error' = Some (message e)\<rparr>)"
    if "?chat = Some (Inl e)" for e
  proof -
    have "instanceofOllamaAPIError e"
      using that unfolding chat_def by (rule post_throws_api)
    moreover have "queryTry svc parse env q = Some (Inl e)"
      using that by (simp add: queryTry_def)
    ultimately show ?thesis by (simp add: query_def)
  qed
  have 4: "query svc parse env q =
            Some (Inr
              (case getProperty response ''message'' of
                 Inl e \<Rightarrow>
                   \<lparr>text' = JStr ''I encountered an unexpected error.'',
                    structuredOutput = JUndefined, toolCalls = None, error' = Some (message e)\<rparr>
               | Inr msg \<Rightarrow>
                   (case getProperty msg ''content'' of
                      Inl e \<Rightarrow>
                        \<lparr>text' = JStr ''I encountered an unexpected error.'',
                         structuredOutput = JUndefined, toolCalls = None, error' = Some (message e)\<rparr>
                    | Inr responseText \<Rightarrow>
                        (case (if truthy (extractStructuredData parse responseText)
                               then extractToolCalls (extractStructuredData parse responseText)
                               else Inr None) of
                           Inl e \<Rightarrow>
                             \<lparr>text' = JStr ''I encountered an unexpected error.'',
                              structuredOutput = JUndefined, toolCalls = None, error' = Some (message e)\<rparr>
                         | Inr calls \<Rightarrow>
                             \<lparr>text' = responseText,
                              structuredOutput = extractStructuredData parse responseText,
                              toolCalls = calls, error' = None\<rparr>))))"
    if "?chat = Some (Inr response)" for response
    using that getProperty_throws_other extractToolCalls_throws_other
    by (auto simp: query_def queryTry_def split: sum.splits)
  show ?thesis using 1 2 3 4 by blast
qed

text \<open>
  The ways out of the \<^verbatim>\<open>try\<close> block that are not the executor's: a reply whose
  content holds the empty object, and a reply whose message is \<^verbatim>\<open>null\<close>.
\<close>

lemma chat_reply:
  "\<not> isErrorResponse reply \<Longrightarrow>
     fst (chat (client service3) (envChatReply reply) (queryParams service3 q)) = Some (Inr reply)"
  unfolding chat_def post_def
  by (subst postLoop.simps) (simp add: service3_def cfg3_def envChatReply_def attemptOnce_def)

lemma query_reply_examples:
  "query service3 parseEmptyObject
     (envChatReply (JObj [(''message'', JObj [(''role'', JStr ''assistant''), (''content'', JStr ''{}'')])]))
     ''example.com'' =
     Some (Inr \<lparr>text' = JStr ''{}'', structuredOutput = JObj [], toolCalls = None, error' = None\<rparr>)"
  "query service3 parseEmptyObject (envChatReply (JObj [(''message'', JNull)])) ''example.com'' =
     Some (Inr \<lparr>text' = JStr ''I encountered an unexpected error.'', structuredOutput = JUndefined,
          toolCalls = None,
          error' = Some (''Cannot read properties of null (reading '' @ quoted ''content'' @ '')'')\<rparr>)"
  by (simp_all add: query_def queryTry_def chat_reply isErrorResponse_def getProperty_def
        extractStructuredData_def
        jsonStr_def matchFenceAt_def matchBraceAt_def trim_def trimBy_def isWhiteSpace_def
        parseEmptyObject_def extractToolCalls_def inOperator_def)

theorem query_never_raises_witness:
  "fst (chat (client service3) envChat500 (queryParams service3 ''example.com'')) =
     Some (Inl (OllamaAPIError ''API error: Internal server error'' (Some 500)))
   \<and> query service3 parseEmptyObject envChat500 ''example.com'' =
       Some (Inr \<lparr>text' = JStr ''I encountered an error communicating with my AI backend.'',
            structuredOutput = JUndefined, toolCalls = None,
            error' = Some ''API error: Internal server error''\<rparr>)
   \<and> fst (chat (client service3) (envChatReply (JObj [(''message'', JNull)]))
            (queryParams service3 ''example.com'')) = Some (Inr (JObj [(''message'', JNull)]))
   \<and> query service3 parseEmptyObject (envChatReply (JObj [(''message'', JNull)])) ''example.com'' =
       Some (Inr \<lparr>text' = JStr ''I encountered an unexpected error.'', structuredOutput = JUndefined,
            toolCalls = None,
            error' = Some (''Cannot read properties of null (reading '' @ quoted ''content'' @ '')'')\<rparr>)"
proof -
  have c: "fst (chat (client service3) envChat500 (queryParams service3 ''example.com'')) =
     Some (Inl (OllamaAPIError ''API error: Internal server error'' (Some 500)))"
    unfolding chat_def post_def
    by (simp add: postLoop.simps service3_def cfg3_def envChat500_def resp500_def attemptOnce_def)
  have r: "fst (chat (client service3) (envChatReply (JObj [(''message'', JNull)]))
            (queryParams service3 ''example.com'')) = Some (Inr (JObj [(''message'', JNull)]))"
    by (simp add: chat_reply isErrorResponse_def)
  show ?thesis
    using query_never_raises[of service3 parseEmptyObject envChat500 "''example.com''"]
          query_never_raises[of service3 parseEmptyObject "envChatReply (JObj [(''message'', JNull)])"
            "''example.com''"]
          c r
    by (simp add: getProperty_def)
qed

text \<open>
  C6, as the claim states it, fails in two ways. A backend that sends the headers of a
  successful response and never the body leaves \<^verbatim>\<open>query\<close> pending: it returns no
  result. A backend that replies \<^verbatim>\<open>{"message":{}}\<close> gets a result that is not well
  formed: its \<^verbatim>\<open>text\<close> is \<^verbatim>\<open>undefined\<close>, and it has no \<^verbatim>\<open>error\<close> field.
\<close>

theorem query_not_well_formed:
  "query service3 parseEmptyObject envStalled ''example.com'' = None
   \<and> query service3 parseEmptyObject (envChatReply (JObj [(''message'', JObj [])])) ''example.com'' =
       Some (Inr \<lparr>text' = JUndefined, structuredOutput = JUndefined, toolCalls = None, error' = None\<rparr>)"
proof -
  have stalled: "fst (chat (client service3) envStalled (queryParams service3 ''example.com'')) = None"
    unfolding chat_def post_def
    by (subst postLoop.simps)
       (simp add: service3_def cfg3_def envStalled_def respStalled_def attemptOnce_def)
  have 1: "query service3 parseEmptyObject envStalled ''example.com'' = None"
    using stalled by (simp add: query_def queryTry_def)
  have 2: "query service3 parseEmptyObject (envChatReply (JObj [(''message'', JObj [])])) ''example.com'' =
       Some (Inr \<lparr>text' = JUndefined, structuredOutput = JUndefined, toolCalls = None, error' = None\<rparr>)"
    by (simp add: query_def queryTry_def chat_reply isErrorResponse_def getProperty_def
          extractStructuredData_def)
  show ?thesis using 1 2 by simp
qed

end
